theory Spec2Isabelle
  imports Complex_Main
begin

section \<open>Semivariogram estimation: a model of semivariogram.py\<close>

text \<open>
  The program works on numpy arrays of double-precision floats. The model takes the
  floats as mathematical reals: every theorem below is a statement about the
  algorithm in exact arithmetic. Rounding, signed zeros, NaN and infinities of the
  inputs are outside the model; a NaN that the program itself writes (the marker of
  an empty lag) is the value \<open>None\<close>.
\<close>

subsection \<open>The theoretical models (expvar, exprange, sphvar, sphrange, gauvar, gaurange)\<close>

definition expvar :: "real \<Rightarrow> real \<Rightarrow> real \<Rightarrow> real \<Rightarrow> real" where
  "expvar h c0 ce a0 = c0 + ce * (1 - exp (- \<bar>h\<bar> / a0))"

definition exprange :: "real \<Rightarrow> real \<Rightarrow> real \<Rightarrow> real \<Rightarrow> real" where
  "exprange sill c0 ce a0 = - ln (- (sill * 0.95 - c0) / ce + 1) * a0"

definition sphvar :: "real \<Rightarrow> real \<Rightarrow> real \<Rightarrow> real \<Rightarrow> real" where
  "sphvar h c0 ce a0 =
     (if 0 \<le> \<bar>h\<bar> \<and> \<bar>h\<bar> \<le> a0
      then c0 + ce * ((3 / 2) * (\<bar>h\<bar> / a0) - (1 / 2) * (\<bar>h\<bar> / a0) ^ 3)
      else c0 + ce)"

definition sphrange :: "real \<Rightarrow> real \<Rightarrow> real \<Rightarrow> real \<Rightarrow> real" where
  "sphrange sill c0 ce a0 = a0"

definition gauvar :: "real \<Rightarrow> real \<Rightarrow> real \<Rightarrow> real \<Rightarrow> real" where
  "gauvar h c0 ce a0 = c0 + ce * (1 - exp (- (h ^ 2) / a0 ^ 2))"

definition gaurange :: "real \<Rightarrow> real \<Rightarrow> real \<Rightarrow> real \<Rightarrow> real" where
  "gaurange sill c0 ce a0 = sqrt (- ((a0) ^ 2) * ln (- (sill * 0.95 - c0) / ce + 1))"

text \<open>The closed forms as the specification words them.\<close>

definition spec_expvar :: "real \<Rightarrow> real \<Rightarrow> real \<Rightarrow> real \<Rightarrow> real" where
  "spec_expvar h c0 ce a0 = c0 + ce * (1 - exp (- \<bar>h\<bar> / a0))"

definition spec_exprange :: "real \<Rightarrow> real \<Rightarrow> real \<Rightarrow> real \<Rightarrow> real" where
  "spec_exprange sill c0 ce a0 = a0 * (- ln (1 - (0.95 * sill - c0) / ce))"

definition spec_sphvar :: "real \<Rightarrow> real \<Rightarrow> real \<Rightarrow> real \<Rightarrow> real" where
  "spec_sphvar h c0 ce a0 =
     (if \<bar>h\<bar> \<le> a0 then c0 + ce * (1.5 * (h / a0) - 0.5 * (h / a0) ^ 3) else c0 + ce)"

definition spec_sphrange :: "real \<Rightarrow> real \<Rightarrow> real \<Rightarrow> real \<Rightarrow> real" where
  "spec_sphrange sill c0 ce a0 = a0"

definition spec_gauvar :: "real \<Rightarrow> real \<Rightarrow> real \<Rightarrow> real \<Rightarrow> real" where
  "spec_gauvar h c0 ce a0 = c0 + ce * (1 - exp (- (h ^ 2 / a0 ^ 2)))"

definition spec_gaurange :: "real \<Rightarrow> real \<Rightarrow> real \<Rightarrow> real \<Rightarrow> real" where
  "spec_gaurange sill c0 ce a0 = a0 * sqrt (- ln (1 - (0.95 * sill - c0) / ce))"

subsection \<open>Errors\<close>

text \<open>
  The exceptions the program raises itself (TypeError and NameError, each with the
  message it carries) and those raised by the built-ins and libraries it calls.
\<close>

datatype message =
    DimensionMismatch
  | NegativeDirection
  | DirectionOutOfRange
  | ToleranceTooLarge
  | WrongType
  | WrongModel

datatype error =
    TypeError message
  | NameError message
  | ValueError
  | IndexError
  | AttributeError
  | RuntimeError

subsection \<open>Pairwise geometry (distang)\<close>

text \<open>
  \<open>np.arctan2\<close> on reals: the angle of the point \<open>(x, y)\<close>, in radians, in the
  range \<open>(-pi, pi]\<close>.
\<close>

definition arctan2 :: "real \<Rightarrow> real \<Rightarrow> real" where
  "arctan2 y x =
     (if 0 < x then arctan (y / x)
      else if x < 0 \<and> 0 \<le> y then arctan (y / x) + pi
      else if x < 0 then arctan (y / x) - pi
      else if 0 < y then pi / 2
      else if y < 0 then - (pi / 2)
      else 0)"

text \<open>
  The two nested loops \<open>for o in range(n-1): for p in range(o+1,n)\<close>: the pairs in
  the order the loops visit them. The counter \<open>k\<close> of the program is the position in
  this list.
\<close>

definition pairs :: "nat \<Rightarrow> (nat \<times> nat) list" where
  "pairs n = concat (map (\<lambda>o'. map (\<lambda>p. (o', p)) [o' + 1 ..< n]) [0 ..< n - 1])"

definition py_max :: "real list \<Rightarrow> real" where
  "py_max r = fold max (tl r) (hd r)"

text \<open>
  \<open>distang\<close> returns \<open>(r, t, xr, n)\<close>. With fewer than two points the arrays are
  empty and \<open>max(r)\<close> raises ValueError; a \<open>y\<close> shorter than \<open>x\<close> is read out of
  range.
\<close>

definition distang :: "real list \<Rightarrow> real list \<Rightarrow> error + (real list \<times> real list \<times> real \<times> nat)" where
  "distang x y =
     (let n = length x in
      if n < 2 then Inl ValueError
      else if length y < n then Inl IndexError
      else
        let t = map (\<lambda>(o', p). arctan2 (y ! p - y ! o') (x ! p - x ! o')) (pairs n);
            r = map (\<lambda>(o', p). sqrt ((x ! p - x ! o') ^ 2 + (y ! p - y ! o') ^ 2)) (pairs n);
            xr = py_max r
        in Inr (r, t, xr, n))"

subsection \<open>The binner (semivario)\<close>

datatype vtype = Omnidirectional | Directional | DirectionalOrientational | OtherType

definition deg2rad :: "real \<Rightarrow> real" where
  "deg2rad d = d * pi / 180"

text \<open>
  The angular test, written three times in the program (for the direction \<open>a\<close> in both
  directional modes and for the folded direction \<open>m\<close>): \<open>c\<close> is the centre of the
  window, \<open>ta\<close> the tolerance, \<open>b\<close> the buffer and \<open>tk\<close> the angle of the pair.
\<close>

definition in_window :: "real \<Rightarrow> real \<Rightarrow> real \<Rightarrow> real \<Rightarrow> bool" where
  "in_window c ta b tk =
     (if c + ta + b > deg2rad 180 then
        (c - ta - b < tk \<and> tk < c) \<or> (c < tk \<and> tk < deg2rad 180 + b)
        \<or> (- deg2rad 180 - b < tk \<and> tk < - deg2rad 360 + (c + ta + b))
      else if c - ta - b < - deg2rad 180 then
        (c + ta + b > tk \<and> tk > c) \<or> (c > tk \<and> tk > - deg2rad 180 - b)
        \<or> (deg2rad 180 + b > tk \<and> tk > deg2rad 360 + (c - ta - b))
      else c - ta - b < tk \<and> tk < c + ta + b)"

text \<open>The accumulator of one lag: the running sum \<open>g[s]\<close> and the counter \<open>q\<close>.\<close>

type_synonym acc = "real \<times> nat"

definition add_pair :: "real list \<Rightarrow> nat \<Rightarrow> nat \<Rightarrow> acc \<Rightarrow> acc" where
  "add_pair z o' p gq = (fst gq + (z ! p - z ! o') ^ 2, snd gq + 1)"

definition window_step :: "real \<Rightarrow> real \<Rightarrow> real \<Rightarrow> real \<Rightarrow> real list \<Rightarrow> nat \<Rightarrow> nat \<Rightarrow> acc \<Rightarrow> acc" where
  "window_step c ta b tk z o' p gq = (if in_window c ta b tk then add_pair z o' p gq else gq)"

text \<open>The body of the innermost loop, for the pair \<open>(o, p)\<close> at position \<open>k\<close>.\<close>

definition pair_body ::
  "real list \<Rightarrow> real list \<Rightarrow> real list \<Rightarrow> real \<Rightarrow> nat \<Rightarrow> real \<Rightarrow> real \<Rightarrow> vtype
     \<Rightarrow> nat \<times> nat \<times> nat \<Rightarrow> acc \<Rightarrow> acc" where
  "pair_body r t z L s di td ty kop gq =
     (let k = fst kop; o' = fst (snd kop); p = snd (snd kop);
          a = deg2rad di; ta = deg2rad td; b = deg2rad 0.01 in
      if real s * L < \<bar>r ! k\<bar> \<and> \<bar>r ! k\<bar> < (real s + 1) * L then
        let gq1 = (if ty = Omnidirectional then add_pair z o' p gq else gq);
            gq2 = (if ty = Directional then
                     let m = (if a < 0 then deg2rad (di + 180) else deg2rad (di - 180))
                     in window_step m ta b (t ! k) z o' p (window_step a ta b (t ! k) z o' p gq1)
                   else gq1);
            gq3 = (if ty = DirectionalOrientational
                   then window_step a ta b (t ! k) z o' p gq2 else gq2)
        in gq3
      else gq)"

text \<open>The scan of all pairs for lag \<open>s\<close>, from \<open>g[s] = 0\<close> and \<open>q = 0\<close>.\<close>

definition lag_scan ::
  "real list \<Rightarrow> real list \<Rightarrow> real list \<Rightarrow> nat \<Rightarrow> real \<Rightarrow> nat \<Rightarrow> real \<Rightarrow> real \<Rightarrow> vtype \<Rightarrow> acc" where
  "lag_scan r t z n L s di td ty =
     fold (pair_body r t z L s di td ty) (enumerate 0 (pairs n)) (0, 0)"

text \<open>
  After the scan \<open>g[s]\<close> is NaN (here \<open>None\<close>) when \<open>q = 0\<close> and the sum divided by
  \<open>q*2\<close> otherwise. \<open>np.delete(a, np.where(np.isnan(g)))\<close> removes from \<open>a\<close> the
  positions where \<open>g\<close> is NaN. The counts \<open>c\<close> are kept as naturals.
\<close>

definition delete_nan :: "'a list \<Rightarrow> real option list \<Rightarrow> 'a list" where
  "delete_nan xs g = map fst (filter (\<lambda>xg. snd xg \<noteq> None) (zip xs g))"

definition semivario ::
  "real list \<Rightarrow> real list \<Rightarrow> real \<Rightarrow> nat \<Rightarrow> real list \<Rightarrow> nat \<Rightarrow> real \<Rightarrow> real \<Rightarrow> vtype
     \<Rightarrow> real list \<times> real list \<times> nat list" where
  "semivario r t xr n z nL di td ty =
     (let L = xr / real nL;
          gq = map (\<lambda>s. lag_scan r t z n L s di td ty) [0 ..< nL];
          g = map (\<lambda>(gs, q). if q = 0 then None else Some (gs / (real q * 2))) gq;
          c = map snd gq;
          h = map (\<lambda>s. real s * L + L / 2) [0 ..< nL]
      in (delete_nan h g, map the (delete_nan g g), delete_nan c g))"

subsection \<open>The orchestrator (semivariogram): validation and experimental series\<close>

datatype mtype = Exponential | Spherical | Gaussian | NoIdea | NoModel | OtherModel

text \<open>\<open>np.array(di).any()\<close>: whether some element of \<open>di\<close> is not zero, a boolean.\<close>

definition np_any :: "real list \<Rightarrow> bool" where
  "np_any di = (\<exists>d\<in>set di. d \<noteq> 0)"

text \<open>
  The four checks at the head of \<open>semivariogram\<close>, in their order. In the third, the
  program compares the boolean \<open>np.array(di).any()\<close> with \<open>180\<close> and \<open>-180\<close>; Python
  reads \<open>True\<close> as \<open>1\<close> and \<open>False\<close> as \<open>0\<close> there.
\<close>

definition check_input ::
  "real list \<Rightarrow> real list \<Rightarrow> real list \<Rightarrow> real list \<Rightarrow> real \<Rightarrow> vtype \<Rightarrow> error + unit" where
  "check_input x y v di td ty =
     (if length x \<noteq> length y \<or> length y \<noteq> length v then Inl (TypeError DimensionMismatch)
      else if ty = Directional \<and> (\<exists>d\<in>set di. d < 0) then Inl (TypeError NegativeDirection)
      else if (of_bool (np_any di) :: real) > 180 \<or> (of_bool (np_any di) :: real) < - 180
        then Inl (TypeError DirectionOutOfRange)
      else if td > 180 then Inl (TypeError ToleranceTooLarge)
      else Inr ())"

text \<open>\<open>t = np.where(t==-180, 180, t)\<close>, applied to the angles that \<open>distang\<close> returns.\<close>

definition remap_angle :: "real \<Rightarrow> real" where
  "remap_angle tk = (if tk = - 180 then 180 else tk)"

text \<open>
  The experimental part of \<open>semivariogram\<close>: the checks, the geometry, the remapping of
  the angles, the choice of the directions by type, and one series \<open>(hi, gi, ci)\<close> for
  each direction.
\<close>

type_synonym series = "real list \<times> real list \<times> nat list"

text \<open>The directions and the tolerance in use: \<open>[0]\<close> and \<open>180\<close> for the omnidirectional type.\<close>

definition directions :: "vtype \<Rightarrow> real list \<Rightarrow> real list" where
  "directions ty di = (if ty = Omnidirectional then [0] else di)"

definition tolerance :: "vtype \<Rightarrow> real \<Rightarrow> real" where
  "tolerance ty td = (if ty = Omnidirectional then 180 else td)"

definition experimental ::
  "real list \<Rightarrow> real list \<Rightarrow> real list \<Rightarrow> nat \<Rightarrow> real list \<Rightarrow> real \<Rightarrow> vtype
     \<Rightarrow> error + series list" where
  "experimental x y v nL di td ty =
     (case check_input x y v di td ty of
        Inl e \<Rightarrow> Inl e
      | Inr u \<Rightarrow>
         (case distang x y of
            Inl e \<Rightarrow> Inl e
          | Inr (r, t0, xr, n) \<Rightarrow>
             (let t = map remap_angle t0 in
              if ty = OtherType then Inl (NameError WrongType)
              else Inr (map (\<lambda>i. semivario r t xr n v nL i (tolerance ty td) ty)
                          (directions ty di)))))"

subsection \<open>The orchestrator: fitting and model selection\<close>

text \<open>
  \<open>scipy.optimize.curve_fit\<close> is not part of the program: it is a parameter of the
  model. A call either raises or returns the fitted parameters with their covariance,
  which is a matrix or, when it cannot be estimated, the float \<open>inf\<close> (which has no
  \<open>diagonal\<close>, so that reading it raises AttributeError).
\<close>

datatype pcov = Matrix "real list list" | InfFloat

datatype score = Finite real | Infinity

type_synonym model_fn = "real \<Rightarrow> real \<Rightarrow> real \<Rightarrow> real \<Rightarrow> real"

type_synonym fitter = "model_fn \<Rightarrow> real list \<Rightarrow> real list \<Rightarrow> real list \<Rightarrow> error + (real list \<times> pcov)"

text \<open>
  One cell of the arrays \<open>popt\<close>, \<open>pcov\<close> and \<open>vark\<close>. The arrays start as zeros; the
  zero of the object array \<open>pcov\<close> is \<open>None\<close> here.
\<close>

record cell =
  popt :: "real list"
  pcov :: "pcov option"
  vark :: score

text \<open>The warning printed when a fit fails: the index of the model and the direction.\<close>

datatype diag = FitWarning nat real

definition diagonal :: "real list list \<Rightarrow> real list" where
  "diagonal mat = map (\<lambda>i. mat ! i ! i) [0 ..< length mat]"

definition np_mean :: "real list \<Rightarrow> real" where
  "np_mean xs = sum_list xs / real (length xs)"

text \<open>
  The body of the two fitting loops, for model \<open>j\<close> and the direction \<open>d\<close> with its
  series \<open>(hi, gi)\<close>. Only AttributeError is caught; any other exception leaves the
  function. The score is written with the quotient and the root of the reals: where
  a fitted parameter is zero or a variance is negative numpy gives \<open>inf\<close> or \<open>nan\<close>,
  which the reals do not have, and the properties of the scores below are stated for
  fits without such values.
\<close>

definition fit_attempt ::
  "fitter \<Rightarrow> model_fn \<Rightarrow> nat \<Rightarrow> real \<Rightarrow> real list \<Rightarrow> real list \<Rightarrow> real list
     \<Rightarrow> error + (cell \<times> diag list)" where
  "fit_attempt curve_fit f j d hi gi p0 =
     (case curve_fit f hi gi p0 of
        Inl e \<Rightarrow>
          (if e = AttributeError
           then Inr (\<lparr>popt = [0, 0, 0], pcov = None, vark = Infinity\<rparr>, [FitWarning j d])
           else Inl e)
      | Inr (popti, pcovi) \<Rightarrow>
          (case pcovi of
             InfFloat \<Rightarrow>
               Inr (\<lparr>popt = popti, pcov = Some pcovi, vark = Infinity\<rparr>, [FitWarning j d])
           | Matrix mat \<Rightarrow>
               Inr (\<lparr>popt = popti, pcov = Some pcovi,
                     vark = Finite (np_mean (map2 (\<lambda>var par. sqrt var / par) (diagonal mat) popti))\<rparr>,
                    [])))"

text \<open>The inner loop over the directions and the outer loop over the models.\<close>

fun fit_row ::
  "fitter \<Rightarrow> model_fn \<Rightarrow> nat \<Rightarrow> (real \<times> real list \<times> real list) list \<Rightarrow> real list
     \<Rightarrow> error + (cell list \<times> diag list)" where
  "fit_row curve_fit f j [] p0 = Inr ([], [])"
| "fit_row curve_fit f j ((d, hi, gi) # rest) p0 =
     (case fit_attempt curve_fit f j d hi gi p0 of
        Inl e \<Rightarrow> Inl e
      | Inr (cl, w) \<Rightarrow>
          (case fit_row curve_fit f j rest p0 of
             Inl e \<Rightarrow> Inl e
           | Inr (cls, ws) \<Rightarrow> Inr (cl # cls, w @ ws)))"

fun fit_all ::
  "fitter \<Rightarrow> model_fn list \<Rightarrow> nat \<Rightarrow> (real \<times> real list \<times> real list) list \<Rightarrow> real list
     \<Rightarrow> error + (cell list list \<times> diag list)" where
  "fit_all curve_fit [] j dirs p0 = Inr ([], [])"
| "fit_all curve_fit (f # fs) j dirs p0 =
     (case fit_row curve_fit f j dirs p0 of
        Inl e \<Rightarrow> Inl e
      | Inr (row, w) \<Rightarrow>
          (case fit_all curve_fit fs (j + 1) dirs p0 of
             Inl e \<Rightarrow> Inl e
           | Inr (rows, ws) \<Rightarrow> Inr (row # rows, w @ ws)))"

text \<open>
  \<open>np.mean(vark, axis=1)\<close> and \<open>np.argmin\<close> on scores: a mean over a row holding
  \<open>inf\<close> is \<open>inf\<close>, and \<open>argmin\<close> returns the first position of the least value.
\<close>

fun score_less :: "score \<Rightarrow> score \<Rightarrow> bool" where
  "score_less (Finite a) (Finite b) = (a < b)"
| "score_less (Finite a) Infinity = True"
| "score_less Infinity s = False"


fun the_finite :: "score \<Rightarrow> real" where
  "the_finite (Finite a) = a"
| "the_finite Infinity = 0"

definition mean_score :: "score list \<Rightarrow> score" where
  "mean_score ss = (if Infinity \<in> set ss then Infinity else Finite (np_mean (map the_finite ss)))"

definition argmin :: "score list \<Rightarrow> nat" where
  "argmin ss =
     fst (fold (\<lambda>(i, s) (bi, bs). if score_less s bs then (i, s) else (bi, bs))
            (enumerate 1 (tl ss)) (0, hd ss))"

text \<open>The lists \<open>func\<close> and \<open>range\<close> chosen by the model keyword.\<close>

definition model_funcs :: "mtype \<Rightarrow> model_fn list" where
  "model_funcs model =
     (case model of
        Exponential \<Rightarrow> [expvar]
      | Spherical \<Rightarrow> [sphvar]
      | Gaussian \<Rightarrow> [gauvar]
      | NoIdea \<Rightarrow> [expvar, sphvar, gauvar]
      | _ \<Rightarrow> [])"

definition model_ranges :: "mtype \<Rightarrow> model_fn list" where
  "model_ranges model =
     (case model of
        Exponential \<Rightarrow> [exprange]
      | Spherical \<Rightarrow> [sphrange]
      | Gaussian \<Rightarrow> [gaurange]
      | NoIdea \<Rightarrow> [exprange, sphrange, gaurange]
      | _ \<Rightarrow> [])"

record fitted =
  ind :: nat
  nugget :: "real list"
  sill :: "real list"
  range :: "real list"
  vark_ind :: "score list"
  pcov_ind :: "pcov option list"
  warnings :: "diag list"

text \<open>
  The selection after the loops: \<open>ind\<close>, then \<open>nugget = popt[ind,:,0]\<close>,
  \<open>sill = popt[ind,:,0] + popt[ind,:,1]\<close> and \<open>range[ind]\<close> applied to
  \<open>sill\<close> and the three columns of \<open>popt[ind]\<close>.
\<close>

definition select_model :: "model_fn list \<Rightarrow> cell list list \<Rightarrow> diag list \<Rightarrow> fitted" where
  "select_model ranges cells ws =
     (let i = argmin (map (\<lambda>row. mean_score (map vark row)) cells);
          po = map popt (cells ! i);
          sl = map (\<lambda>par. par ! 0 + par ! 1) po
      in \<lparr>ind = i,
          nugget = map (\<lambda>par. par ! 0) po,
          sill = sl,
          range = map2 (\<lambda>s par. (ranges ! i) s (par ! 0) (par ! 1) (par ! 2)) sl po,
          vark_ind = map vark (cells ! i),
          pcov_ind = map pcov (cells ! i),
          warnings = ws\<rparr>)"

datatype outcome = SeriesOnly "series list" | WithFit fitted "series list"

text \<open>
  \<open>semivariogram\<close> with \<open>graph=False\<close> (the plots are outside the model) and the
  timing prints left out. \<open>have_curve_fit\<close> says whether the import of \<open>curve_fit\<close>
  succeeds; when it does not, the model keyword becomes \<open>nomodel\<close>.
\<close>

definition semivariogram ::
  "bool \<Rightarrow> fitter \<Rightarrow> real list \<Rightarrow> real list \<Rightarrow> real list \<Rightarrow> nat \<Rightarrow> real list \<Rightarrow> real
     \<Rightarrow> vtype \<Rightarrow> mtype \<Rightarrow> real list \<Rightarrow> error + outcome" where
  "semivariogram have_curve_fit curve_fit x y v nL di td ty model0 p0 =
     (case experimental x y v nL di td ty of
        Inl e \<Rightarrow> Inl e
      | Inr ser \<Rightarrow>
         (let model = (if have_curve_fit then model0 else NoModel) in
          if model = OtherModel then Inl (NameError WrongModel)
          else if model = NoModel then Inr (SeriesOnly ser)
          else
            (case fit_all curve_fit (model_funcs model) 0
                    (zip (directions ty di) (map (\<lambda>(hi, gi, ci). (hi, gi)) ser)) p0 of
               Inl e \<Rightarrow> Inl e
             | Inr (cells, ws) \<Rightarrow> Inr (WithFit (select_model (model_ranges model) cells ws) ser))))"

subsection \<open>Notions used to state the properties\<close>

text \<open>The order in which the pairs are enumerated: ascending \<open>o\<close>, then ascending \<open>p\<close>.\<close>

definition pair_less :: "nat \<times> nat \<Rightarrow> nat \<times> nat \<Rightarrow> bool" where
  "pair_less a b = (fst a < fst b \<or> (fst a = fst b \<and> snd a < snd b))"

text \<open>The distance between the points of a pair.\<close>

definition pdist :: "real list \<Rightarrow> real list \<Rightarrow> nat \<times> nat \<Rightarrow> real" where
  "pdist x y op = sqrt ((x ! snd op - x ! fst op) ^ 2 + (y ! snd op - y ! fst op) ^ 2)"

text \<open>
  The pairs that the specification assigns to lag \<open>s\<close>: those whose distance lies
  strictly inside \<open>(s*L, (s+1)*L)\<close>.
\<close>

definition spec_lag_pairs :: "real list \<Rightarrow> real list \<Rightarrow> nat \<Rightarrow> real \<Rightarrow> nat \<Rightarrow> (nat \<times> nat) list" where
  "spec_lag_pairs x y n L s =
     filter (\<lambda>op. real s * L < pdist x y op \<and> pdist x y op < (real s + 1) * L) (pairs n)"

definition sqdiff :: "real list \<Rightarrow> nat \<times> nat \<Rightarrow> real" where
  "sqdiff z op = (z ! snd op - z ! fst op) ^ 2"

text \<open>The lag test of the program on position \<open>k\<close>, and the folded direction \<open>m\<close>.\<close>

definition in_lag :: "real list \<Rightarrow> real \<Rightarrow> nat \<Rightarrow> nat \<Rightarrow> bool" where
  "in_lag r L s k = (real s * L < \<bar>r ! k\<bar> \<and> \<bar>r ! k\<bar> < (real s + 1) * L)"

definition fold_direction :: "real \<Rightarrow> real" where
  "fold_direction di = (if deg2rad di < 0 then deg2rad (di + 180) else deg2rad (di - 180))"

text \<open>How many times the body adds a pair of the lag, by type.\<close>

definition hits :: "vtype \<Rightarrow> real \<Rightarrow> real \<Rightarrow> real \<Rightarrow> nat" where
  "hits ty di td tk =
     (case ty of
        Omnidirectional \<Rightarrow> 1
      | Directional \<Rightarrow>
          of_bool (in_window (deg2rad di) (deg2rad td) (deg2rad 0.01) tk)
          + of_bool (in_window (fold_direction di) (deg2rad td) (deg2rad 0.01) tk)
      | DirectionalOrientational \<Rightarrow> of_bool (in_window (deg2rad di) (deg2rad td) (deg2rad 0.01) tk)
      | OtherType \<Rightarrow> 0)"

text \<open>
  The number of times the scan of lag \<open>s\<close> adds the pair at position \<open>k\<close>, and the
  count and the sum that the scan of lag \<open>s\<close> ends with.
\<close>

definition lag_hits :: "real list \<Rightarrow> real list \<Rightarrow> real \<Rightarrow> nat \<Rightarrow> real \<Rightarrow> real \<Rightarrow> vtype \<Rightarrow> nat \<Rightarrow> nat" where
  "lag_hits r t L s di td ty k = (if in_lag r L s k then hits ty di td (t ! k) else 0)"

definition lag_count :: "real list \<Rightarrow> real list \<Rightarrow> nat \<Rightarrow> real \<Rightarrow> nat \<Rightarrow> real \<Rightarrow> real \<Rightarrow> vtype \<Rightarrow> nat" where
  "lag_count r t n L s di td ty =
     sum_list (map (\<lambda>kop. lag_hits r t L s di td ty (fst kop)) (enumerate 0 (pairs n)))"

definition lag_sum ::
  "real list \<Rightarrow> real list \<Rightarrow> real list \<Rightarrow> nat \<Rightarrow> real \<Rightarrow> nat \<Rightarrow> real \<Rightarrow> real \<Rightarrow> vtype \<Rightarrow> real" where
  "lag_sum r t z n L s di td ty =
     sum_list (map (\<lambda>kop. real (lag_hits r t L s di td ty (fst kop)) * sqdiff z (snd kop))
                 (enumerate 0 (pairs n)))"

text \<open>
  What the loops leave for one attempt, given the outcome of its call of \<open>curve_fit\<close>:
  after a fit with a covariance matrix, the cell holds the parameters, the matrix and
  the mean of \<open>sqrt(variance)/parameter\<close>; after any other outcome the score of the
  cell is \<open>inf\<close> and the warning of the attempt has been printed.
\<close>

definition attempt_recorded ::
  "fitter \<Rightarrow> model_fn \<Rightarrow> nat \<Rightarrow> real \<times> real list \<times> real list \<Rightarrow> real list
     \<Rightarrow> cell \<Rightarrow> diag list \<Rightarrow> bool" where
  "attempt_recorded curve_fit f j dir p0 cl ws =
     (case curve_fit f (fst (snd dir)) (snd (snd dir)) p0 of
        Inr (popti, Matrix mat) \<Rightarrow>
          cl = \<lparr>popt = popti, pcov = Some (Matrix mat),
                vark = Finite (np_mean (map2 (\<lambda>var par. sqrt var / par) (diagonal mat) popti))\<rparr>
      | Inr (popti, InfFloat) \<Rightarrow> vark cl = Infinity \<and> FitWarning j (fst dir) \<in> set ws
      | Inl e \<Rightarrow> vark cl = Infinity \<and> FitWarning j (fst dir) \<in> set ws)"

text \<open>
  Two fitters for examples. The first raises RuntimeError at every call, as
  \<open>curve_fit\<close> does when the optimizer does not converge. The second tells the three
  models apart by their value at \<open>h = 2\<close> for the parameters \<open>(0, 1, 1)\<close>: it fits the
  spherical model, returns no covariance for the gaussian model and raises
  AttributeError for the exponential model.
\<close>

definition fit_not_converged :: fitter where
  "fit_not_converged f hi gi p0 = Inl RuntimeError"

definition fit_example :: fitter where
  "fit_example f hi gi p0 =
     (if f 2 0 1 1 = 1 then Inr ([1, 2, 3], Matrix [[4, 0, 0], [0, 16, 0], [0, 0, 36]])
      else if f 2 0 1 1 = 1 - exp (- 4) then Inr ([1, 1, 1], InfFloat)
      else Inl AttributeError)"

text \<open>
  Whether some attempt of the loops over \<open>funcs\<close> and \<open>dirs\<close> raises an exception
  other than AttributeError.
\<close>

definition raises_other ::
  "fitter \<Rightarrow> model_fn list \<Rightarrow> (real \<times> real list \<times> real list) list \<Rightarrow> real list \<Rightarrow> bool" where
  "raises_other curve_fit funcs dirs p0 =
     (\<exists>j < length funcs. \<exists>i < length dirs. \<exists>e.
        curve_fit (funcs ! j) (fst (snd (dirs ! i))) (snd (snd (dirs ! i))) p0 = Inl e
        \<and> e \<noteq> AttributeError)"

text \<open>
  A third fitter for examples: it fits the exponential model, raises AttributeError
  for the spherical model and RuntimeError for the gaussian model.
\<close>

definition fit_late_failure :: fitter where
  "fit_late_failure f hi gi p0 =
     (if f 2 0 1 1 = 1 then Inl AttributeError
      else if f 2 0 1 1 = 1 - exp (- 4) then Inl RuntimeError
      else Inr ([1, 2, 3], Matrix [[4, 0, 0], [0, 16, 0], [0, 0, 36]]))"



subsection \<open>The lags in binary64\<close>

text \<open>
  Rounding to binary64, to nearest with ties to even: a real \<open>x\<close> other than zero with
  \<open>2^e \<le> \<bar>x\<bar> < 2^(e+1)\<close> becomes the nearest multiple of \<open>2^(e-52)\<close>, the even one
  of the two when it lies halfway. Overflow and subnormal numbers are not modelled.
\<close>

definition round_even :: "real \<Rightarrow> int" where
  "round_even y =
     (let f = \<lfloor>y\<rfloor>; d = y - of_int f in
      if d < 1 / 2 then f else if 1 / 2 < d then f + 1 else if even f then f else f + 1)"

definition fl :: "real \<Rightarrow> real" where
  "fl x =
     (if x = 0 then 0
      else let e = \<lfloor>log 2 \<bar>x\<bar>\<rfloor>; u = 2 powr (of_int e - 52)
           in of_int (round_even (x / u)) * u)"

text \<open>
  What the body of the innermost loop does with a pair once the test of the lag has
  passed: the three \<open>if\<close> on the type, as in \<open>pair_body\<close>.
\<close>

definition pair_add ::
  "real list \<Rightarrow> real list \<Rightarrow> real \<Rightarrow> real \<Rightarrow> vtype \<Rightarrow> nat \<times> nat \<times> nat \<Rightarrow> acc \<Rightarrow> acc" where
  "pair_add t z di td ty kop gq =
     (let k = fst kop; o' = fst (snd kop); p = snd (snd kop);
          a = deg2rad di; ta = deg2rad td; b = deg2rad 0.01;
          gq1 = (if ty = Omnidirectional then add_pair z o' p gq else gq);
          gq2 = (if ty = Directional then
                   let m = (if a < 0 then deg2rad (di + 180) else deg2rad (di - 180))
                   in window_step m ta b (t ! k) z o' p (window_step a ta b (t ! k) z o' p gq1)
                 else gq1);
          gq3 = (if ty = DirectionalOrientational
                 then window_step a ta b (t ! k) z o' p gq2 else gq2)
      in gq3)"

text \<open>
  The body, the scan of a lag and the sample counts \<open>c\<close> of \<open>semivario\<close> when the lag
  width \<open>L = xr/nL\<close> and the products \<open>s*L\<close> and \<open>(s+1)*L\<close> of the test of the lag are
  each rounded by \<open>rnd\<close>, as the program rounds them to binary64 (\<open>rnd = fl\<close>); the
  integers \<open>nL\<close>, \<open>s\<close> and \<open>s+1\<close> are exact. The count of a lag is the integer \<open>q\<close>, and
  the entry of a lag is deleted exactly when \<open>q = 0\<close>. With \<open>rnd\<close> the identity these
  are \<open>pair_body\<close>, \<open>lag_scan\<close> and the counts of \<open>semivario\<close>.
\<close>

definition pair_body_rnd ::
  "(real \<Rightarrow> real) \<Rightarrow> real list \<Rightarrow> real list \<Rightarrow> real list \<Rightarrow> real \<Rightarrow> nat \<Rightarrow> real \<Rightarrow> real \<Rightarrow> vtype
     \<Rightarrow> nat \<times> nat \<times> nat \<Rightarrow> acc \<Rightarrow> acc" where
  "pair_body_rnd rnd r t z L s di td ty kop gq =
     (if rnd (real s * L) < \<bar>r ! fst kop\<bar> \<and> \<bar>r ! fst kop\<bar> < rnd ((real s + 1) * L)
      then pair_add t z di td ty kop gq else gq)"

definition lag_scan_rnd ::
  "(real \<Rightarrow> real) \<Rightarrow> real list \<Rightarrow> real list \<Rightarrow> real list \<Rightarrow> nat \<Rightarrow> real \<Rightarrow> nat \<Rightarrow> real \<Rightarrow> real
     \<Rightarrow> vtype \<Rightarrow> acc" where
  "lag_scan_rnd rnd r t z n L s di td ty =
     fold (pair_body_rnd rnd r t z L s di td ty) (enumerate 0 (pairs n)) (0, 0)"

definition semivario_counts ::
  "(real \<Rightarrow> real) \<Rightarrow> real list \<Rightarrow> real list \<Rightarrow> real \<Rightarrow> nat \<Rightarrow> real list \<Rightarrow> nat \<Rightarrow> real \<Rightarrow> real
     \<Rightarrow> vtype \<Rightarrow> nat list" where
  "semivario_counts rnd r t xr n z nL di td ty =
     (let L = rnd (xr / real nL);
          c = map (\<lambda>s. snd (lag_scan_rnd rnd r t z n L s di td ty)) [0 ..< nL]
      in filter (\<lambda>q. q \<noteq> 0) c)"

section \<open>Properties\<close>

subsection \<open>The enumeration of pairs\<close>

lemma length_pairs_upto:
  assumes "m \<le> n"
  shows "length (concat (map (\<lambda>o'. map (\<lambda>p. (o', p)) [o' + 1 ..< n]) [0 ..< m])) * 2
           + m * (m + 1) = 2 * m * n"
  using assms
proof (induction m)
  case 0
  then show ?case by simp
next
  case (Suc m)
  then show ?case by (simp add: algebra_simps)
qed

lemma length_pairs: "length (pairs n) = n * (n - 1) div 2"
proof (cases n)
  case 0
  then show ?thesis by (simp add: pairs_def)
next
  case (Suc m)
  have "length (pairs n) * 2 + m * (m + 1) = 2 * m * n"
    unfolding pairs_def using length_pairs_upto [of m n] Suc by simp
  then have "length (pairs n) * 2 = n * (n - 1)"
    using Suc by (simp add: algebra_simps)
  then show ?thesis by simp
qed

lemma set_pairs: "set (pairs n) = {(o', p). o' < p \<and> p < n}"
proof -
  have "(a, b) \<in> set (pairs n) \<longleftrightarrow> a < b \<and> b < n" for a b
  proof
    assume "(a, b) \<in> set (pairs n)"
    then show "a < b \<and> b < n" by (auto simp: pairs_def)
  next
    assume h: "a < b \<and> b < n"
    then have "a \<in> {0 ..< n - 1}" "(a, b) \<in> Pair a ` {a + 1 ..< n}" by auto
    then have "\<exists>x\<in>{0..<n - 1}. (a, b) \<in> Pair x ` {x + 1..<n}" by (rule bexI [rotated])
    then show "(a, b) \<in> set (pairs n)" by (simp add: pairs_def)
  qed
  then show ?thesis by (simp add: set_eq_iff)
qed

lemma sorted_pairs_upto:
  "sorted_wrt pair_less (concat (map (\<lambda>o'. map (\<lambda>p. (o', p)) [o' + 1 ..< n]) [0 ..< m]))"
proof (induction m)
  case 0
  then show ?case by simp
next
  case (Suc m)
  have "sorted_wrt pair_less (map (\<lambda>p. (m, p)) [m + 1 ..< n])"
    by (simp add: sorted_wrt_map pair_less_def sorted_wrt_iff_nth_less)
  with Suc show ?case
    by (auto simp: sorted_wrt_append) (auto simp: pair_less_def)
qed

lemma sorted_pairs: "sorted_wrt pair_less (pairs n)"
  unfolding pairs_def by (rule sorted_pairs_upto)

lemma pairs_nonempty: "2 \<le> n \<Longrightarrow> pairs n \<noteq> []"
proof -
  assume "2 \<le> n"
  then have "(0, 1) \<in> set (pairs n)" by (simp add: set_pairs)
  then show ?thesis by auto
qed

lemma py_max_Max: "r \<noteq> [] \<Longrightarrow> py_max r = Max (set r)"
  by (cases r) (simp_all add: py_max_def Max.set_eq_fold [symmetric])

lemma distang_Inr:
  assumes "2 \<le> length x" "length x \<le> length y"
  shows "distang x y = Inr (map (pdist x y) (pairs (length x)),
           map (\<lambda>(o', p). arctan2 (y ! p - y ! o') (x ! p - x ! o')) (pairs (length x)),
           py_max (map (pdist x y) (pairs (length x))), length x)"
proof -
  have "(\<lambda>(o', p). sqrt ((x ! p - x ! o') ^ 2 + (y ! p - y ! o') ^ 2)) = pdist x y"
    by (auto simp: pdist_def fun_eq_iff)
  then show ?thesis
    using assms by (simp add: distang_def Let_def)
qed

lemma pdist_nonneg: "0 \<le> pdist x y op"
  by (simp add: pdist_def)

lemma pdist_zero_iff: "pdist x y op = 0 \<longleftrightarrow> x ! snd op = x ! fst op \<and> y ! snd op = y ! fst op"
  by (simp add: pdist_def sum_power2_eq_zero_iff)

text \<open>
  C5. For \<open>n \<ge> 2\<close> points \<open>distang\<close> returns \<open>n(n-1)/2\<close> distances and as many angles,
  the \<open>k\<close>-th being that of the \<open>k\<close>-th pair of the enumeration; the enumeration holds
  exactly the pairs \<open>(o, p)\<close> with \<open>o < p < n\<close>, by ascending \<open>o\<close> then ascending \<open>p\<close>;
  every distance is non-negative, and zero only when the two points coincide; and
  the returned \<open>xr\<close> is one of the distances and no distance is larger.
\<close>

theorem distang_observations:
  assumes "2 \<le> length x" and "length x \<le> length y"
  shows "\<exists>r t xr. distang x y = Inr (r, t, xr, length x)
           \<and> length r = length x * (length x - 1) div 2
           \<and> length t = length x * (length x - 1) div 2
           \<and> set (pairs (length x)) = {(o', p). o' < p \<and> p < length x}
           \<and> sorted_wrt pair_less (pairs (length x))
           \<and> (\<forall>k < length r. r ! k = pdist x y (pairs (length x) ! k) \<and> 0 \<le> r ! k
                 \<and> (r ! k = 0 \<longleftrightarrow> x ! snd (pairs (length x) ! k) = x ! fst (pairs (length x) ! k)
                                  \<and> y ! snd (pairs (length x) ! k) = y ! fst (pairs (length x) ! k)))
           \<and> xr \<in> set r \<and> (\<forall>d \<in> set r. d \<le> xr)"
proof -
  let ?n = "length x"
  let ?r = "map (pdist x y) (pairs ?n)"
  have ne: "?r \<noteq> []" using pairs_nonempty [OF assms(1)] by simp
  have mx: "py_max ?r = Max (set ?r)" by (rule py_max_Max [OF ne])
  have in_r: "py_max ?r \<in> set ?r" unfolding mx using ne by (intro Max_in) simp_all
  have ge_r: "\<forall>d \<in> set ?r. d \<le> py_max ?r" unfolding mx by simp
  have nth_r: "\<forall>k < length ?r. ?r ! k = pdist x y (pairs ?n ! k) \<and> 0 \<le> ?r ! k
       \<and> (?r ! k = 0 \<longleftrightarrow> x ! snd (pairs ?n ! k) = x ! fst (pairs ?n ! k)
                        \<and> y ! snd (pairs ?n ! k) = y ! fst (pairs ?n ! k))"
    by (simp add: pdist_nonneg pdist_zero_iff)
  show ?thesis
    using distang_Inr [OF assms] in_r ge_r nth_r
    by (simp add: length_pairs set_pairs sorted_pairs)
qed

theorem distang_observations_witness:
  "2 \<le> length [0, 3, 0 :: real] \<and> length [0, 3, 0 :: real] \<le> length [0, 0, 4 :: real]
     \<and> (\<exists>r t xr. distang [0, 3, 0] [0, 0, 4] = Inr (r, t, xr, 3) \<and> length r = 3 \<and> length t = 3
       \<and> xr \<in> set r \<and> (\<forall>d \<in> set r. d \<le> xr))"
proof -
  have h: "2 \<le> length [0, 3, 0 :: real]" "length [0, 3, 0 :: real] \<le> length [0, 0, 4 :: real]"
    by simp_all
  from distang_observations [OF h] obtain r t xr where
    "distang [0, 3, 0] [0, 0, 4] = Inr (r, t, xr, length [0, 3, 0 :: real])"
    "length r = length [0, 3, 0 :: real] * (length [0, 3, 0 :: real] - 1) div 2"
    "length t = length [0, 3, 0 :: real] * (length [0, 3, 0 :: real] - 1) div 2"
    "xr \<in> set r" "\<forall>d \<in> set r. d \<le> xr"
    by blast
  then have "distang [0, 3, 0] [0, 0, 4] = Inr (r, t, xr, 3) \<and> length r = 3 \<and> length t = 3
       \<and> xr \<in> set r \<and> (\<forall>d \<in> set r. d \<le> xr)" by simp
  then show ?thesis using h by blast
qed

subsection \<open>The scan of a lag as a sum over the pairs\<close>

lemma pair_body_eq:
  "pair_body r t z L s di td ty kop gq =
     (fst gq + real (lag_hits r t L s di td ty (fst kop)) * sqdiff z (snd kop),
      snd gq + lag_hits r t L s di td ty (fst kop))"
  by (cases ty)
     (auto simp: pair_body_def lag_hits_def in_lag_def hits_def window_step_def add_pair_def
        sqdiff_def fold_direction_def Let_def algebra_simps)

lemma fold_pair_body:
  "fold (pair_body r t z L s di td ty) kops gq =
     (fst gq + sum_list (map (\<lambda>kop. real (lag_hits r t L s di td ty (fst kop)) * sqdiff z (snd kop)) kops),
      snd gq + sum_list (map (\<lambda>kop. lag_hits r t L s di td ty (fst kop)) kops))"
proof (induction kops arbitrary: gq)
  case Nil
  then show ?case by simp
next
  case (Cons kop kops)
  have "fold (pair_body r t z L s di td ty) (kop # kops) gq
          = fold (pair_body r t z L s di td ty) kops (pair_body r t z L s di td ty kop gq)"
    by simp
  also have "\<dots> = (fst gq + sum_list (map (\<lambda>kop. real (lag_hits r t L s di td ty (fst kop)) * sqdiff z (snd kop)) (kop # kops)),
      snd gq + sum_list (map (\<lambda>kop. lag_hits r t L s di td ty (fst kop)) (kop # kops)))"
    by (subst Cons.IH) (simp add: pair_body_eq add.assoc)
  finally show ?case .
qed

lemma lag_scan_eq:
  "lag_scan r t z n L s di td ty = (lag_sum r t z n L s di td ty, lag_count r t n L s di td ty)"
  by (simp add: lag_scan_def fold_pair_body lag_sum_def lag_count_def)

lemma delete_nan_map:
  "delete_nan (map f ss) (map gf ss) = map f (filter (\<lambda>s. gf s \<noteq> None) ss)"
  by (induction ss) (auto simp: delete_nan_def)

lemma semivario_eq:
  "semivario r t xr n z nL di td ty =
     (let L = xr / real nL;
          ss = filter (\<lambda>s. lag_count r t n L s di td ty \<noteq> 0) [0 ..< nL]
      in (map (\<lambda>s. real s * L + L / 2) ss,
          map (\<lambda>s. lag_sum r t z n L s di td ty / (real (lag_count r t n L s di td ty) * 2)) ss,
          map (\<lambda>s. lag_count r t n L s di td ty) ss))"
proof -
  define L where "L = xr / real nL"
  define gf where "gf = (\<lambda>s. if lag_count r t n L s di td ty = 0 then None
         else Some (lag_sum r t z n L s di td ty / (real (lag_count r t n L s di td ty) * 2)))"
  have g: "map (\<lambda>(gs, q). if q = 0 then None else Some (gs / (real q * 2)))
             (map (\<lambda>s. lag_scan r t z n L s di td ty) [0 ..< nL]) = map gf [0 ..< nL]"
    by (simp add: lag_scan_eq gf_def)
  have c: "map snd (map (\<lambda>s. lag_scan r t z n L s di td ty) [0 ..< nL])
             = map (\<lambda>s. lag_count r t n L s di td ty) [0 ..< nL]"
    by (simp add: lag_scan_eq)
  have f: "(\<lambda>s. gf s \<noteq> None) = (\<lambda>s. lag_count r t n L s di td ty \<noteq> 0)"
    by (auto simp: gf_def fun_eq_iff)
  define ss where "ss = filter (\<lambda>s. lag_count r t n L s di td ty \<noteq> 0) [0 ..< nL]"
  have del: "delete_nan (map f' [0 ..< nL]) (map gf [0 ..< nL]) = map f' ss" for f' :: "nat \<Rightarrow> 'b"
    unfolding delete_nan_map f ss_def ..
  have gg: "map the (map gf ss)
      = map (\<lambda>s. lag_sum r t z n L s di td ty / (real (lag_count r t n L s di td ty) * 2)) ss"
    by (auto simp: gf_def ss_def)
  have "semivario r t xr n z nL di td ty =
      (delete_nan (map (\<lambda>s. real s * L + L / 2) [0 ..< nL]) (map gf [0 ..< nL]),
       map the (delete_nan (map gf [0 ..< nL]) (map gf [0 ..< nL])),
       delete_nan (map (\<lambda>s. lag_count r t n L s di td ty) [0 ..< nL]) (map gf [0 ..< nL]))"
    unfolding semivario_def Let_def L_def [symmetric] g c ..
  also have "\<dots> = (map (\<lambda>s. real s * L + L / 2) ss,
       map (\<lambda>s. lag_sum r t z n L s di td ty / (real (lag_count r t n L s di td ty) * 2)) ss,
       map (\<lambda>s. lag_count r t n L s di td ty) ss)"
    unfolding del gg ..
  finally show ?thesis
    unfolding Let_def L_def [symmetric] ss_def .
qed

subsection \<open>Angles\<close>

lemma arctan2_range: "- pi < arctan2 y x \<and> arctan2 y x \<le> pi"
proof -
  have a: "- (pi / 2) < arctan (y / x)" "arctan (y / x) < pi / 2"
    by (rule arctan_lbound, rule arctan_ubound)
  have b: "x < 0 \<Longrightarrow> 0 \<le> y \<Longrightarrow> arctan (y / x) \<le> 0"
    by (simp add: divide_nonneg_neg arctan_le_zero_iff zero_le_divide_iff divide_le_0_iff)
  have c: "x < 0 \<Longrightarrow> y < 0 \<Longrightarrow> 0 < arctan (y / x)"
    by (simp add: zero_less_arctan_iff zero_less_divide_iff)
  show ?thesis
    using a b c pi_gt_zero unfolding arctan2_def by (auto simp: not_less)
qed

lemma pi_less_180: "pi < 180"
  using pi_less_4 by simp

lemma remap_angle_id: "- pi \<le> tk \<Longrightarrow> tk \<le> pi \<Longrightarrow> remap_angle tk = tk"
  using pi_less_180 by (simp add: remap_angle_def)

text \<open>
  C6. The angles are in radians, and the remapping compares them with the number
  \<open>-180\<close>: a raw angle of \<open>-180\<close> degrees, which is \<open>-pi\<close>, is left as it is and is not
  turned into \<open>pi\<close>.
\<close>

theorem remap_angle_minus_pi: "remap_angle (- pi) = - pi \<and> remap_angle (- pi) \<noteq> pi"
  using pi_less_180 pi_gt_zero by (simp add: remap_angle_def)

subsection \<open>The theoretical models\<close>

text \<open>
  C8, as the claim states it, fails: the spherical model of the program is a function
  of \<open>\<bar>h\<bar>\<close> and differs from the closed form at a negative \<open>h\<close>, and the gaussian range of
  the program takes the root of \<open>a0\<^sup>2\<close> and differs from the closed form at a negative
  \<open>a0\<close>.
\<close>

theorem model_closed_forms_counterexample:
  "sphvar (- 1) 0 1 2 \<noteq> spec_sphvar (- 1) 0 1 2
     \<and> gaurange 1 0 1 (- 1) \<noteq> spec_gaurange 1 0 1 (- 1)"
proof -
  have "ln (1 / 20 :: real) < 0" by (rule ln_less_zero) simp_all
  then have "0 < sqrt (- ln (1 / 20 :: real))" by simp
  then have "gaurange 1 0 1 (- 1) \<noteq> spec_gaurange 1 0 1 (- 1)"
    by (simp add: gaurange_def spec_gaurange_def)
  moreover have "sphvar (- 1) 0 1 2 \<noteq> spec_sphvar (- 1) 0 1 2"
    by (simp add: sphvar_def spec_sphvar_def power3_eq_cube)
  ultimately show ?thesis by simp
qed

text \<open>
  C8, amended. For \<open>ce \<noteq> 0\<close> and \<open>a0 \<noteq> 0\<close> the exponential model and its range, the
  gaussian model and the spherical range are the closed forms of the specification;
  the spherical model is the closed form at \<open>\<bar>h\<bar>\<close>, and the gaussian range is the
  closed form at \<open>\<bar>a0\<bar>\<close>.
\<close>

theorem model_closed_forms:
  assumes "ce \<noteq> 0" and "a0 \<noteq> 0"
  shows "expvar h c0 ce a0 = spec_expvar h c0 ce a0
       \<and> exprange sl c0 ce a0 = spec_exprange sl c0 ce a0
       \<and> sphvar h c0 ce a0 = spec_sphvar \<bar>h\<bar> c0 ce a0
       \<and> sphrange sl c0 ce a0 = spec_sphrange sl c0 ce a0
       \<and> gauvar h c0 ce a0 = spec_gauvar h c0 ce a0
       \<and> gaurange sl c0 ce a0 = spec_gaurange sl c0 ce \<bar>a0\<bar>"
proof -
  have 1: "expvar h c0 ce a0 = spec_expvar h c0 ce a0"
    by (simp add: expvar_def spec_expvar_def)
  have 2: "exprange sl c0 ce a0 = spec_exprange sl c0 ce a0"
    by (simp add: exprange_def spec_exprange_def algebra_simps diff_divide_distrib)
  have 3: "sphvar h c0 ce a0 = spec_sphvar \<bar>h\<bar> c0 ce a0"
    by (simp add: sphvar_def spec_sphvar_def)
  have 4: "sphrange sl c0 ce a0 = spec_sphrange sl c0 ce a0"
    by (simp add: sphrange_def spec_sphrange_def)
  have 5: "gauvar h c0 ce a0 = spec_gauvar h c0 ce a0"
    by (simp add: gauvar_def spec_gauvar_def)
  have 6: "gaurange sl c0 ce a0 = spec_gaurange sl c0 ce \<bar>a0\<bar>"
    by (simp add: gaurange_def spec_gaurange_def real_sqrt_mult real_sqrt_minus
        algebra_simps diff_divide_distrib)
  from 1 2 3 4 5 6 show ?thesis by simp
qed

theorem model_closed_forms_witness:
  "(1::real) \<noteq> 0 \<and> (2::real) \<noteq> 0
     \<and> expvar (- 1) 0 1 2 = spec_expvar (- 1) 0 1 2
     \<and> sphvar (- 1) 0 1 2 = spec_sphvar \<bar>- 1\<bar> 0 1 2
     \<and> gaurange 1 0 1 2 = spec_gaurange 1 0 1 \<bar>2\<bar>"
  using model_closed_forms [of 1 2 "- 1" 0 1] by simp

subsection \<open>Validation\<close>

lemma check_input_never_direction: "check_input x y v di td ty \<noteq> Inl (TypeError DirectionOutOfRange)"
  by (simp add: check_input_def)

text \<open>
  C3. The direction list \<open>[200]\<close> passes the checks, and the experimental series is
  computed for the direction \<open>200\<close>.
\<close>

theorem direction_200_accepted:
  "check_input [0, 1, 3] [0, 0, 0] [1, 2, 4] [200] 30 DirectionalOrientational = Inr ()
     \<and> (\<exists>ser. experimental [0, 1, 3] [0, 0, 0] [1, 2, 4] 1 [200] 30 DirectionalOrientational
                = Inr ser)"
  by (simp add: experimental_def check_input_def distang_def np_any_def Let_def)

theorem direction_200_accepted_witness:
  "check_input [0, 1, 3] [0, 0, 0] [1, 2, 4] [200] 30 DirectionalOrientational = Inr ()"
  using direction_200_accepted by simp

subsection \<open>The omnidirectional series\<close>

lemma enumerate_map_nth:
  "map (\<lambda>kop. F (map pd ps ! fst kop) (snd kop)) (enumerate 0 ps) = map (\<lambda>op. F (pd op) op) ps"
  by (rule nth_equalityI) (simp_all add: nth_enumerate_eq)

lemma sum_list_indicator: "sum_list (map (\<lambda>x. if P x then 1 else 0) xs) = length (filter P xs)"
  by (induction xs) simp_all

lemma sum_list_filter_real:
  "sum_list (map (\<lambda>x. real (if P x then 1 else 0) * f x) xs) = sum_list (map f (filter P xs))"
  by (induction xs) simp_all

lemma omni_hits:
  "lag_hits (map (pdist x y) ps) t L s di td Omnidirectional k =
     (if real s * L < \<bar>map (pdist x y) ps ! k\<bar> \<and> \<bar>map (pdist x y) ps ! k\<bar> < (real s + 1) * L then 1 else 0)"
  by (simp add: lag_hits_def in_lag_def hits_def)

lemma abs_pdist: "\<bar>pdist x y op\<bar> = pdist x y op"
  using pdist_nonneg [of x y op] by simp

lemma omni_count:
  "lag_count (map (pdist x y) (pairs n)) t n L s di td Omnidirectional = length (spec_lag_pairs x y n L s)"
proof -
  let ?F = "\<lambda>d (op :: nat \<times> nat). if real s * L < \<bar>d\<bar> \<and> \<bar>d\<bar> < (real s + 1) * L then 1 else (0::nat)"
  have "lag_count (map (pdist x y) (pairs n)) t n L s di td Omnidirectional
      = sum_list (map (\<lambda>kop. ?F (map (pdist x y) (pairs n) ! fst kop) (snd kop)) (enumerate 0 (pairs n)))"
    by (simp add: lag_count_def omni_hits)
  also have "\<dots> = sum_list (map (\<lambda>op. ?F (pdist x y op) op) (pairs n))"
    by (simp only: enumerate_map_nth [of ?F])
  also have "\<dots> = sum_list (map (\<lambda>op. if real s * L < pdist x y op \<and> pdist x y op < (real s + 1) * L then 1 else 0) (pairs n))"
    by (simp only: abs_pdist)
  also have "\<dots> = length (spec_lag_pairs x y n L s)"
    unfolding spec_lag_pairs_def by (rule sum_list_indicator)
  finally show ?thesis .
qed

lemma omni_sum:
  "lag_sum (map (pdist x y) (pairs n)) t z n L s di td Omnidirectional
     = sum_list (map (sqdiff z) (spec_lag_pairs x y n L s))"
proof -
  let ?F = "\<lambda>d op. real (if real s * L < \<bar>d\<bar> \<and> \<bar>d\<bar> < (real s + 1) * L then 1 else 0) * sqdiff z op"
  have "lag_sum (map (pdist x y) (pairs n)) t z n L s di td Omnidirectional
      = sum_list (map (\<lambda>kop. ?F (map (pdist x y) (pairs n) ! fst kop) (snd kop)) (enumerate 0 (pairs n)))"
    by (simp add: lag_sum_def omni_hits)
  also have "\<dots> = sum_list (map (\<lambda>op. ?F (pdist x y op) op) (pairs n))"
    by (simp only: enumerate_map_nth [of ?F])
  also have "\<dots> = sum_list (map (\<lambda>op. real (if real s * L < pdist x y op \<and> pdist x y op < (real s + 1) * L then 1 else 0) * sqdiff z op) (pairs n))"
    by (simp only: abs_pdist)
  also have "\<dots> = sum_list (map (sqdiff z) (spec_lag_pairs x y n L s))"
    unfolding spec_lag_pairs_def by (rule sum_list_filter_real)
  finally show ?thesis .
qed

lemma sorted_filter_upt: "sorted_wrt (<) (filter P [0 ..< n])"
  by (rule sorted_wrt_filter) (simp add: sorted_wrt_upt)

text \<open>
  C1. For at least two points and \<open>nL \<ge> 1\<close>, with \<open>L = xr / nL\<close>: the omnidirectional
  series has one entry for each lag \<open>s < nL\<close> to which the specification assigns a pair
  (a pair whose distance lies strictly inside \<open>(s*L, (s+1)*L)\<close>) and none for the
  other lags, in strictly increasing order of \<open>s\<close>; the entry of lag \<open>s\<close> is the centre
  \<open>s*L + L/2\<close>, the sum of the squared differences of the pairs of the lag divided by
  twice their number, and their number.
\<close>

theorem omnidirectional_series:
  assumes "2 \<le> length x" and "length y = length x" and "length z = length x" and "1 \<le> nL"
  shows "\<exists>r t xr ss. distang x y = Inr (r, t, xr, length x)
           \<and> sorted_wrt (<) ss
           \<and> set ss = {s. s < nL \<and> spec_lag_pairs x y (length x) (xr / real nL) s \<noteq> []}
           \<and> semivario r (map remap_angle t) xr (length x) z nL di td Omnidirectional =
               (map (\<lambda>s. real s * (xr / real nL) + (xr / real nL) / 2) ss,
                map (\<lambda>s. sum_list (map (sqdiff z) (spec_lag_pairs x y (length x) (xr / real nL) s))
                           / (2 * real (length (spec_lag_pairs x y (length x) (xr / real nL) s)))) ss,
                map (\<lambda>s. length (spec_lag_pairs x y (length x) (xr / real nL) s)) ss)"
proof -
  let ?n = "length x"
  let ?r = "map (pdist x y) (pairs ?n)"
  let ?xr = "py_max ?r"
  let ?L = "?xr / real nL"
  let ?ss = "filter (\<lambda>s. spec_lag_pairs x y ?n ?L s \<noteq> []) [0 ..< nL]"
  obtain t where d: "distang x y = Inr (?r, t, ?xr, ?n)"
    using distang_Inr [of x y] assms by simp
  have 1: "sorted_wrt (<) ?ss" by (rule sorted_filter_upt)
  have 2: "set ?ss = {s. s < nL \<and> spec_lag_pairs x y ?n ?L s \<noteq> []}" by auto
  have 3: "semivario ?r (map remap_angle t) ?xr ?n z nL di td Omnidirectional =
               (map (\<lambda>s. real s * ?L + ?L / 2) ?ss,
                map (\<lambda>s. sum_list (map (sqdiff z) (spec_lag_pairs x y ?n ?L s))
                           / (2 * real (length (spec_lag_pairs x y ?n ?L s)))) ?ss,
                map (\<lambda>s. length (spec_lag_pairs x y ?n ?L s)) ?ss)"
    by (simp add: semivario_eq Let_def omni_count omni_sum mult.commute)
  from d 1 2 3 show ?thesis by blast
qed

theorem omnidirectional_series_witness:
  "2 \<le> length [0, 1, 3 :: real] \<and> length [0, 0, 0 :: real] = length [0, 1, 3 :: real]
     \<and> length [1, 2, 4 :: real] = length [0, 1, 3 :: real] \<and> (1 :: nat) \<le> 2
     \<and> (\<exists>r t xr ss. distang [0, 1, 3] [0, 0, 0] = Inr (r, t, xr, length [0, 1, 3 :: real])
           \<and> sorted_wrt (<) ss
           \<and> set ss = {s. s < 2 \<and> spec_lag_pairs [0, 1, 3] [0, 0, 0] (length [0, 1, 3 :: real]) (xr / real (2 :: nat)) s \<noteq> []}
           \<and> semivario r (map remap_angle t) xr (length [0, 1, 3 :: real]) [1, 2, 4] 2 0 180 Omnidirectional =
               (map (\<lambda>s. real s * (xr / real (2 :: nat)) + (xr / real (2 :: nat)) / 2) ss,
                map (\<lambda>s. sum_list (map (sqdiff [1, 2, 4]) (spec_lag_pairs [0, 1, 3] [0, 0, 0] (length [0, 1, 3 :: real]) (xr / real (2 :: nat)) s))
                           / (2 * real (length (spec_lag_pairs [0, 1, 3] [0, 0, 0] (length [0, 1, 3 :: real]) (xr / real (2 :: nat)) s)))) ss,
                map (\<lambda>s. length (spec_lag_pairs [0, 1, 3] [0, 0, 0] (length [0, 1, 3 :: real]) (xr / real (2 :: nat)) s)) ss))"
proof -
  have h: "2 \<le> length [0, 1, 3 :: real]" "length [0, 0, 0 :: real] = length [0, 1, 3 :: real]"
    "length [1, 2, 4 :: real] = length [0, 1, 3 :: real]" "(1 :: nat) \<le> 2"
    by simp_all
  from omnidirectional_series [OF h, of 0 180] h show ?thesis by blast
qed

subsection \<open>The windows at a tolerance of 180 degrees, and series that agree pair by pair\<close>

lemma b_pos: "0 < deg2rad 0.01" by (simp add: deg2rad_def)

lemma in_window_full:
  assumes "- 180 \<le> d" "d \<le> 180" "- pi < tk" "tk \<le> pi"
  shows "in_window (deg2rad d) (deg2rad 180) (deg2rad 0.01) tk \<longleftrightarrow> tk \<noteq> deg2rad d"
proof -
  define c where "c = deg2rad d"
  define b where "b = deg2rad 0.01"
  have "(- 180) * pi \<le> d * pi" "d * pi \<le> 180 * pi"
    using assms(1,2) pi_gt_zero by (intro mult_right_mono; simp)+
  then have c: "- pi \<le> c" "c \<le> pi"
    by (simp_all add: c_def deg2rad_def)
  have b: "0 < b" "b < pi" using pi_gt_zero by (simp_all add: b_def deg2rad_def)
  have p: "deg2rad 180 = pi" "deg2rad 360 = 2 * pi" by (simp_all add: deg2rad_def)
  show ?thesis
    unfolding in_window_def c_def [symmetric] b_def [symmetric] p
    using c b assms(3,4) by (auto simp: not_less)
qed

lemma fold_direction_range: "- 180 \<le> di \<Longrightarrow> di \<le> 180 \<Longrightarrow>
    \<exists>d'. fold_direction di = deg2rad d' \<and> - 180 \<le> d' \<and> d' \<le> 180"
proof -
  assume h: "- 180 \<le> di" "di \<le> 180"
  have "deg2rad di < 0 \<longleftrightarrow> di < 0" using pi_gt_zero by (simp add: deg2rad_def mult_less_0_iff)
  then show ?thesis using h by (auto simp: fold_direction_def)
qed

lemma in_window_fold_full:
  assumes "- 180 \<le> di" "di \<le> 180" "- pi < tk" "tk \<le> pi"
  shows "in_window (fold_direction di) (deg2rad 180) (deg2rad 0.01) tk \<longleftrightarrow> tk \<noteq> fold_direction di"
proof -
  obtain d' where "fold_direction di = deg2rad d'" "- 180 \<le> d'" "d' \<le> 180"
    using fold_direction_range [OF assms(1,2)] by blast
  then show ?thesis using in_window_full [of d' tk] assms(3,4) by simp
qed

lemma enumerate_fst_less: "kop \<in> set (enumerate 0 ps) \<Longrightarrow> fst kop < length ps"
  by (cases kop) (simp add: in_set_enumerate_eq)

lemma lag_count_cong:
  assumes "\<And>k. k < length (pairs n) \<Longrightarrow> lag_hits r t L s di td ty k = lag_hits r' t' L s di' td' ty' k"
  shows "lag_count r t n L s di td ty = lag_count r' t' n L s di' td' ty'"
  unfolding lag_count_def
  by (rule arg_cong [where f = sum_list], rule map_cong [OF refl]) (simp add: assms enumerate_fst_less)

lemma lag_sum_cong:
  assumes "\<And>k. k < length (pairs n) \<Longrightarrow> lag_hits r t L s di td ty k = lag_hits r' t' L s di' td' ty' k"
  shows "lag_sum r t z n L s di td ty = lag_sum r' t' z n L s di' td' ty'"
  unfolding lag_sum_def
  by (rule arg_cong [where f = sum_list], rule map_cong [OF refl]) (simp add: assms enumerate_fst_less)

lemma lag_count_double:
  assumes "\<And>k. k < length (pairs n) \<Longrightarrow> lag_hits r t L s di td ty k = 2 * lag_hits r' t' L s di' td' ty' k"
  shows "lag_count r t n L s di td ty = 2 * lag_count r' t' n L s di' td' ty'"
proof -
  have "map (\<lambda>kop. lag_hits r t L s di td ty (fst kop)) (enumerate 0 (pairs n))
      = map (\<lambda>kop. 2 * lag_hits r' t' L s di' td' ty' (fst kop)) (enumerate 0 (pairs n))"
    by (rule map_cong [OF refl]) (simp add: assms enumerate_fst_less)
  then show ?thesis
    unfolding lag_count_def by (simp only: sum_list_const_mult)
qed

lemma lag_sum_double:
  assumes "\<And>k. k < length (pairs n) \<Longrightarrow> lag_hits r t L s di td ty k = 2 * lag_hits r' t' L s di' td' ty' k"
  shows "lag_sum r t z n L s di td ty = 2 * lag_sum r' t' z n L s di' td' ty'"
proof -
  have "map (\<lambda>kop. real (lag_hits r t L s di td ty (fst kop)) * sqdiff z (snd kop)) (enumerate 0 (pairs n))
      = map (\<lambda>kop. 2 * (real (lag_hits r' t' L s di' td' ty' (fst kop)) * sqdiff z (snd kop))) (enumerate 0 (pairs n))"
    by (rule map_cong [OF refl]) (simp add: assms enumerate_fst_less)
  then show ?thesis
    unfolding lag_sum_def by (simp only: sum_list_const_mult)
qed

lemma semivario_cong:
  assumes "\<And>k s. k < length (pairs n) \<Longrightarrow>
     lag_hits r t (xr / real nL) s di td ty k = lag_hits r' t' (xr / real nL) s di' td' ty' k"
  shows "semivario r t xr n z nL di td ty = semivario r' t' xr n z nL di' td' ty'"
proof -
  have c: "lag_count r t n (xr / real nL) s di td ty = lag_count r' t' n (xr / real nL) s di' td' ty'" for s
    by (rule lag_count_cong) (rule assms)
  have g: "lag_sum r t z n (xr / real nL) s di td ty = lag_sum r' t' z n (xr / real nL) s di' td' ty'" for s
    by (rule lag_sum_cong) (rule assms)
  show ?thesis unfolding semivario_eq Let_def c g ..
qed

lemma semivario_double:
  assumes "\<And>k s. k < length (pairs n) \<Longrightarrow>
     lag_hits r t (xr / real nL) s di td ty k = 2 * lag_hits r' t' (xr / real nL) s di' td' ty' k"
  shows "semivario r t xr n z nL di td ty =
     (\<lambda>(h, g, c). (h, g, map (\<lambda>q. 2 * q) c)) (semivario r' t' xr n z nL di' td' ty')"
proof -
  have c: "lag_count r t n (xr / real nL) s di td ty = 2 * lag_count r' t' n (xr / real nL) s di' td' ty'" for s
    by (rule lag_count_double) (rule assms)
  have g: "lag_sum r t z n (xr / real nL) s di td ty = 2 * lag_sum r' t' z n (xr / real nL) s di' td' ty'" for s
    by (rule lag_sum_double) (rule assms)
  show ?thesis unfolding semivario_eq Let_def c g by (simp add: o_def)
qed

subsection \<open>A tolerance of 180 degrees against the omnidirectional series\<close>

lemma pairs_3: "pairs 3 = [(0, 1), (0, 2), (1, 2)]"
  by code_simp

lemma sqrt_4: "sqrt 4 = 2" by (rule real_sqrt_unique) simp_all
lemma sqrt_9: "sqrt 9 = 3" by (rule real_sqrt_unique) simp_all

lemma pairs_Suc3: "pairs (Suc (Suc (Suc 0))) = [(0, 1), (0, 2), (1, 2)]"
  using pairs_3 by (simp add: numeral_3_eq_3)

lemma distang_example:
  "distang [0, 1, 3] [0, 0, 0] = Inr ([1, 3, 2], [0, 0, 0], 3, 3)"
  by (simp add: distang_def pairs_Suc3 py_max_def arctan2_def sqrt_4 sqrt_9 Let_def)

lemma enumerate_pairs_3: "enumerate 0 (pairs 3) = [(0, 0, 1), (1, 0, 2), (2, 1, 2)]"
  by (simp add: pairs_3)

lemma example_in_lag:
  "in_lag [1, 3, 2] 3 0 0" "\<not> in_lag [1, 3, 2] 3 0 (Suc 0)" "in_lag [1, 3, 2] 3 0 2"
  by (simp_all add: in_lag_def)

lemma example_omni:
  "semivario [1, 3, 2] [0, 0, 0] 3 3 [1, 2, 4] 1 0 180 Omnidirectional = ([3 / 2], [5 / 4], [2])"
  by (simp add: semivario_eq lag_count_def lag_sum_def enumerate_pairs_3 lag_hits_def
      example_in_lag hits_def sqdiff_def Let_def)

lemma example_window_0: "\<not> in_window (deg2rad 0) (deg2rad 180) (deg2rad (1 / 100)) 0"
  using in_window_full [of 0 0] pi_gt_zero by (simp add: deg2rad_def)

lemma example_dirori:
  "semivario [1, 3, 2] [0, 0, 0] 3 3 [1, 2, 4] 1 0 180 DirectionalOrientational = ([], [], [])"
  by (simp add: semivario_eq lag_count_def lag_sum_def enumerate_pairs_3 lag_hits_def
      example_in_lag hits_def sqdiff_def Let_def example_window_0)

lemma example_window_90:
  "in_window (deg2rad 90) (deg2rad 180) (deg2rad (1 / 100)) 0"
  "in_window (fold_direction 90) (deg2rad 180) (deg2rad (1 / 100)) 0"
proof -
  have "(0::real) \<noteq> deg2rad 90" using pi_gt_zero by (simp add: deg2rad_def)
  then show "in_window (deg2rad 90) (deg2rad 180) (deg2rad (1 / 100)) 0"
    using in_window_full [of 90 0] pi_gt_zero by simp
  have "(0::real) \<noteq> fold_direction 90" using pi_gt_zero by (simp add: fold_direction_def deg2rad_def)
  then show "in_window (fold_direction 90) (deg2rad 180) (deg2rad (1 / 100)) 0"
    using in_window_fold_full [of 90 0] pi_gt_zero by simp
qed

lemma example_directional:
  "semivario [1, 3, 2] [0, 0, 0] 3 3 [1, 2, 4] 1 90 180 Directional = ([3 / 2], [5 / 4], [4])"
  by (simp add: semivario_eq lag_count_def lag_sum_def enumerate_pairs_3 lag_hits_def
      example_in_lag hits_def sqdiff_def Let_def example_window_90)

lemma remap_zero: "remap_angle 0 = 0" by (simp add: remap_angle_def)

text \<open>
  C2, as the claim states it, fails. For the points \<open>(0,0)\<close>, \<open>(1,0)\<close>, \<open>(3,0)\<close> with the values
  \<open>1\<close>, \<open>2\<close>, \<open>4\<close> and one lag, the omnidirectional series is one entry with two
  samples. With a tolerance of 180 degrees the type directional+orientational at the
  direction \<open>0\<close> gives the empty series (every pair has the angle \<open>0\<close>, the direction
  itself), and the type directional at the direction \<open>90\<close> gives four samples (each pair
  is counted in both windows).
\<close>

theorem tolerance_180_counterexample:
  "experimental [0, 1, 3] [0, 0, 0] [1, 2, 4] 1 [0] 180 Omnidirectional = Inr [([3 / 2], [5 / 4], [2])]
   \<and> experimental [0, 1, 3] [0, 0, 0] [1, 2, 4] 1 [0] 180 DirectionalOrientational = Inr [([], [], [])]
   \<and> experimental [0, 1, 3] [0, 0, 0] [1, 2, 4] 1 [0] 180 DirectionalOrientational
        \<noteq> experimental [0, 1, 3] [0, 0, 0] [1, 2, 4] 1 [0] 180 Omnidirectional
   \<and> experimental [0, 1, 3] [0, 0, 0] [1, 2, 4] 1 [90] 180 Omnidirectional = Inr [([3 / 2], [5 / 4], [2])]
   \<and> experimental [0, 1, 3] [0, 0, 0] [1, 2, 4] 1 [90] 180 Directional = Inr [([3 / 2], [5 / 4], [4])]
   \<and> experimental [0, 1, 3] [0, 0, 0] [1, 2, 4] 1 [90] 180 Directional
        \<noteq> experimental [0, 1, 3] [0, 0, 0] [1, 2, 4] 1 [90] 180 Omnidirectional"
  using example_omni example_dirori example_directional
  by (simp add: experimental_def check_input_def np_any_def distang_example remap_zero
      directions_def tolerance_def)

lemma distang_angles:
  assumes "distang x y = Inr (r, t, xr, n)"
  shows "length t = length (pairs n) \<and> (\<forall>tk \<in> set t. - pi < tk \<and> tk \<le> pi) \<and> map remap_angle t = t"
proof -
  have t: "t = map (\<lambda>(o', p). arctan2 (y ! p - y ! o') (x ! p - x ! o')) (pairs n)"
    using assms by (auto simp: distang_def Let_def split: if_splits)
  have rng: "\<forall>tk \<in> set t. - pi < tk \<and> tk \<le> pi"
    unfolding t using arctan2_range by (auto simp del: neg_less_iff_less)
  then have "remap_angle tk = tk" if "tk \<in> set t" for tk
    using that by (intro remap_angle_id) (auto intro: less_imp_le)
  then have "map remap_angle t = t"
    by (rule map_idI)
  with t rng show ?thesis by simp
qed


lemma hits_dirori_180:
  assumes "- 180 \<le> di" "di \<le> 180" "- pi < t ! k" "t ! k \<le> pi" "t ! k \<noteq> deg2rad di"
  shows "lag_hits r t L s di 180 DirectionalOrientational k = lag_hits r t L s 0 180 Omnidirectional k"
  using in_window_full [OF assms(1-4)] assms(5) by (simp add: lag_hits_def hits_def)

lemma hits_directional_180:
  assumes "- 180 \<le> di" "di \<le> 180" "- pi < t ! k" "t ! k \<le> pi"
    "t ! k \<noteq> deg2rad di" "t ! k \<noteq> fold_direction di"
  shows "lag_hits r t L s di 180 Directional k = 2 * lag_hits r t L s 0 180 Omnidirectional k"
  using in_window_full [OF assms(1-4)] in_window_fold_full [OF assms(1-4)] assms(5,6)
  by (simp add: lag_hits_def hits_def)

text \<open>
  C2, amended. For a direction in \<open>[-180, 180]\<close> and a tolerance of 180 degrees: when no
  pair has an angle equal to the direction, the type directional+orientational gives
  the omnidirectional series; when no pair has an angle equal to the direction or to
  the folded direction, the type directional gives the lag centres and the
  semivariances of the omnidirectional series, with every sample count doubled.
\<close>

theorem tolerance_180_series:
  assumes "2 \<le> length x" and "length y = length x" and "length z = length x"
    and "- 180 \<le> di" and "di \<le> 180"
  shows "\<exists>r t xr. distang x y = Inr (r, t, xr, length x)
     \<and> ((\<forall>tk \<in> set t. tk \<noteq> deg2rad di) \<longrightarrow>
          semivario r (map remap_angle t) xr (length x) z nL di 180 DirectionalOrientational
            = semivario r (map remap_angle t) xr (length x) z nL 0 180 Omnidirectional)
     \<and> ((\<forall>tk \<in> set t. tk \<noteq> deg2rad di \<and> tk \<noteq> fold_direction di) \<longrightarrow>
          semivario r (map remap_angle t) xr (length x) z nL di 180 Directional
            = (\<lambda>(h, g, c). (h, g, map (\<lambda>q. 2 * q) c))
                (semivario r (map remap_angle t) xr (length x) z nL 0 180 Omnidirectional))"
proof -
  obtain r t xr where d: "distang x y = Inr (r, t, xr, length x)"
    using distang_Inr [of x y] assms(1,2) by simp
  note a = distang_angles [OF d]
  have len: "length t = length (pairs (length x))" and rm: "map remap_angle t = t" using a by simp_all
  have rng: "- pi < t ! k \<and> t ! k \<le> pi" if "k < length (pairs (length x))" for k
    using a that by (simp add: len [symmetric])
  have 1: "semivario r t xr (length x) z nL di 180 DirectionalOrientational
            = semivario r t xr (length x) z nL 0 180 Omnidirectional"
    if h: "\<forall>tk \<in> set t. tk \<noteq> deg2rad di"
  proof (rule semivario_cong)
    fix k s assume k: "k < length (pairs (length x))"
    then have "t ! k \<noteq> deg2rad di" using h len by simp
    then show "lag_hits r t (xr / real nL) s di 180 DirectionalOrientational k
        = lag_hits r t (xr / real nL) s 0 180 Omnidirectional k"
      using hits_dirori_180 [OF assms(4,5)] rng [OF k] by blast
  qed
  have 2: "semivario r t xr (length x) z nL di 180 Directional
            = (\<lambda>(h, g, c). (h, g, map (\<lambda>q. 2 * q) c))
                (semivario r t xr (length x) z nL 0 180 Omnidirectional)"
    if h: "\<forall>tk \<in> set t. tk \<noteq> deg2rad di \<and> tk \<noteq> fold_direction di"
  proof (rule semivario_double)
    fix k s assume k: "k < length (pairs (length x))"
    then have "t ! k \<noteq> deg2rad di" "t ! k \<noteq> fold_direction di" using h len by simp_all
    then show "lag_hits r t (xr / real nL) s di 180 Directional k
        = 2 * lag_hits r t (xr / real nL) s 0 180 Omnidirectional k"
      using hits_directional_180 [OF assms(4,5)] rng [OF k] by blast
  qed
  have all: "distang x y = Inr (r, t, xr, length x)
     \<and> ((\<forall>tk \<in> set t. tk \<noteq> deg2rad di) \<longrightarrow>
          semivario r (map remap_angle t) xr (length x) z nL di 180 DirectionalOrientational
            = semivario r (map remap_angle t) xr (length x) z nL 0 180 Omnidirectional)
     \<and> ((\<forall>tk \<in> set t. tk \<noteq> deg2rad di \<and> tk \<noteq> fold_direction di) \<longrightarrow>
          semivario r (map remap_angle t) xr (length x) z nL di 180 Directional
            = (\<lambda>(h, g, c). (h, g, map (\<lambda>q. 2 * q) c))
                (semivario r (map remap_angle t) xr (length x) z nL 0 180 Omnidirectional))"
    unfolding rm using d 1 2 by (intro conjI impI)
  show ?thesis
    apply (rule exI [of _ r])
    apply (rule exI [of _ t])
    apply (rule exI [of _ xr])
    apply (rule all)
    done
qed

theorem tolerance_180_series_witness:
  "semivario [1, 3, 2] [0, 0, 0] 3 3 [1, 2, 4] 1 90 180 DirectionalOrientational
      = semivario [1, 3, 2] [0, 0, 0] 3 3 [1, 2, 4] 1 0 180 Omnidirectional
   \<and> semivario [1, 3, 2] [0, 0, 0] 3 3 [1, 2, 4] 1 90 180 Directional
      = (\<lambda>(h, g, c). (h, g, map (\<lambda>q. 2 * q) c))
          (semivario [1, 3, 2] [0, 0, 0] 3 3 [1, 2, 4] 1 0 180 Omnidirectional)"
proof -
  have h: "2 \<le> length [0, 1, 3 :: real]" "length [0, 0, 0 :: real] = length [0, 1, 3 :: real]"
    "length [1, 2, 4 :: real] = length [0, 1, 3 :: real]" "- 180 \<le> (90 :: real)" "(90 :: real) \<le> 180"
    by simp_all
  have ne: "(0 :: real) \<noteq> deg2rad 90" "(0 :: real) \<noteq> fold_direction 90"
    using pi_gt_zero by (simp_all add: fold_direction_def deg2rad_def)
  from tolerance_180_series [OF h, of 1] ne show ?thesis
    by (simp add: distang_example remap_zero numeral_3_eq_3)
qed

subsection \<open>The pair at the largest distance\<close>












subsection \<open>Two window tests in the type directional\<close>

lemma sum_list_two_tests:
  "sum_list (map (\<lambda>x. if P x then of_bool (A x) + of_bool (M x) else (0::nat)) xs)
     = length (filter (\<lambda>x. P x \<and> A x) xs) + length (filter (\<lambda>x. P x \<and> M x) xs)"
  by (induction xs) simp_all

lemma directional_count:
  "snd (lag_scan r t z n L s di td Directional) =
     length (filter (\<lambda>kop. in_lag r L s (fst kop)
                \<and> in_window (deg2rad di) (deg2rad td) (deg2rad 0.01) (t ! fst kop)) (enumerate 0 (pairs n)))
     + length (filter (\<lambda>kop. in_lag r L s (fst kop)
                \<and> in_window (fold_direction di) (deg2rad td) (deg2rad 0.01) (t ! fst kop)) (enumerate 0 (pairs n)))"
  unfolding lag_scan_eq snd_conv lag_count_def lag_hits_def hits_def vtype.case
  by (rule sum_list_two_tests)

lemma directional_twice:
  assumes "in_lag r L s k"
    and "in_window (deg2rad di) (deg2rad td) (deg2rad 0.01) (t ! k)"
    and "in_window (fold_direction di) (deg2rad td) (deg2rad 0.01) (t ! k)"
  shows "pair_body r t z L s di td Directional (k, o', p) gq = add_pair z o' p (add_pair z o' p gq)"
  using assms
  by (simp add: pair_body_def in_lag_def window_step_def fold_direction_def Let_def)

text \<open>
  C9. In the type directional, a pair of the lag whose angle passes the test of the
  direction and the test of the folded direction is added twice by the body of the
  loop; the count of a lag is the number of its pairs that pass the first test plus
  the number of its pairs that pass the second. For the points \<open>(0,0)\<close>, \<open>(1,0)\<close>,
  \<open>(3,0)\<close>, one lag, the direction \<open>90\<close> and a tolerance of 180 degrees the only
  entry of the series has the count 4, with three pairs in all.
\<close>

theorem directional_double_count:
  "(in_lag r L s k
      \<and> in_window (deg2rad di) (deg2rad td) (deg2rad 0.01) (t ! k)
      \<and> in_window (fold_direction di) (deg2rad td) (deg2rad 0.01) (t ! k)
      \<longrightarrow> pair_body r t z L s di td Directional (k, o', p) gq = add_pair z o' p (add_pair z o' p gq))
   \<and> snd (lag_scan r t z n L s di td Directional) =
       length (filter (\<lambda>kop. in_lag r L s (fst kop)
                  \<and> in_window (deg2rad di) (deg2rad td) (deg2rad 0.01) (t ! fst kop)) (enumerate 0 (pairs n)))
       + length (filter (\<lambda>kop. in_lag r L s (fst kop)
                  \<and> in_window (fold_direction di) (deg2rad td) (deg2rad 0.01) (t ! fst kop)) (enumerate 0 (pairs n)))
   \<and> experimental [0, 1, 3] [0, 0, 0] [1, 2, 4] 1 [90] 180 Directional = Inr [([3 / 2], [5 / 4], [4])]
   \<and> length (pairs (length [0, 1, 3 :: real])) = 3"
proof -
  have 1: "in_lag r L s k
      \<and> in_window (deg2rad di) (deg2rad td) (deg2rad 0.01) (t ! k)
      \<and> in_window (fold_direction di) (deg2rad td) (deg2rad 0.01) (t ! k)
      \<longrightarrow> pair_body r t z L s di td Directional (k, o', p) gq = add_pair z o' p (add_pair z o' p gq)"
    using directional_twice by blast
  have 3: "experimental [0, 1, 3] [0, 0, 0] [1, 2, 4] 1 [90] 180 Directional = Inr [([3 / 2], [5 / 4], [4])]"
    using example_directional
    by (simp add: experimental_def check_input_def np_any_def distang_example remap_zero
      directions_def tolerance_def)
  have 4: "length (pairs (length [0, 1, 3 :: real])) = 3" by (simp add: pairs_Suc3)
  from 1 directional_count [of r t z n L s di td] 3 4 show ?thesis by (intro conjI)
qed

theorem directional_double_count_witness:
  "pair_body [1, 3, 2] [0, 0, 0] [1, 2, 4] 3 0 90 180 Directional (0, 0, 1) (0, 0) = (2, 2)"
proof -
  have "in_lag [1, 3, 2] 3 0 0
      \<and> in_window (deg2rad 90) (deg2rad 180) (deg2rad 0.01) ([0, 0, 0] ! 0)
      \<and> in_window (fold_direction 90) (deg2rad 180) (deg2rad 0.01) ([0, 0, 0] ! 0)"
    using example_in_lag(1) example_window_90 by simp
  with directional_double_count [of "[1, 3, 2]" 3 0 0 90 180 "[0, 0, 0]" "[1, 2, 4]" 0 1 "(0, 0)"]
  have "pair_body [1, 3, 2] [0, 0, 0] [1, 2, 4] 3 0 90 180 Directional (0, 0, 1) (0, 0)
      = add_pair [1, 2, 4] 0 1 (add_pair [1, 2, 4] 0 1 (0, 0))"
    by blast
  then show ?thesis by (simp add: add_pair_def)
qed

subsection \<open>Examples of fits\<close>

lemma example_experimental:
  "experimental [0, 1, 3] [0, 0, 0] [1, 2, 4] 1 [0] 180 Omnidirectional = Inr [([3 / 2], [5 / 4], [2])]"
  using example_omni
  by (simp add: experimental_def check_input_def np_any_def distang_example remap_zero
      directions_def tolerance_def)

lemma sqrt_16: "sqrt 16 = 4" by (rule real_sqrt_unique) simp_all
lemma sqrt_36: "sqrt 36 = 6" by (rule real_sqrt_unique) simp_all

lemma fit_example_models:
  "fit_example expvar hi gi p0 = Inl AttributeError"
  "fit_example sphvar hi gi p0 = Inr ([1, 2, 3], Matrix [[4, 0, 0], [0, 16, 0], [0, 0, 36]])"
  "fit_example gauvar hi gi p0 = Inr ([1, 1, 1], InfFloat)"
  by (simp_all add: fit_example_def expvar_def sphvar_def gauvar_def)

lemma fit_example_raises: "fit_example f hi gi p0 = Inl e \<Longrightarrow> e = AttributeError"
  by (simp add: fit_example_def split: if_splits)

subsection \<open>The least score\<close>







subsection \<open>Cells of the fitting loops\<close>



lemma fit_attempt_score:
  assumes "curve_fit f hi gi p0 = Inr ([c0, ce, a0], Matrix mat)" and "length mat = 3"
  shows "fit_attempt curve_fit f j d hi gi p0 =
     Inr (\<lparr>popt = [c0, ce, a0], pcov = Some (Matrix mat),
           vark = Finite ((sqrt (mat ! 0 ! 0) / c0 + sqrt (mat ! 1 ! 1) / ce + sqrt (mat ! 2 ! 2) / a0) / 3)\<rparr>, [])"
  using assms
  by (simp add: fit_attempt_def diagonal_def np_mean_def numeral_3_eq_3 numeral_2_eq_2)



subsection \<open>Failures of a fit\<close>

lemma fit_attempt_Inl_iff:
  "fit_attempt curve_fit f j d hi gi p0 = Inl e \<longleftrightarrow> curve_fit f hi gi p0 = Inl e \<and> e \<noteq> AttributeError"
proof (cases "curve_fit f hi gi p0")
  case (Inl e')
  then show ?thesis by (auto simp: fit_attempt_def)
next
  case (Inr res)
  obtain popti pcovi where res: "res = (popti, pcovi)" by (cases res)
  show ?thesis using Inr res by (cases pcovi) (simp_all add: fit_attempt_def)
qed

lemma fit_attempt_Inr_recorded:
  assumes "fit_attempt curve_fit f j d hi gi p0 = Inr (cl, w)" and "set w \<subseteq> set ws"
  shows "attempt_recorded curve_fit f j (d, hi, gi) p0 cl ws"
proof (cases "curve_fit f hi gi p0")
  case (Inl e')
  then show ?thesis using assms
    by (cases "e' = AttributeError") (auto simp: fit_attempt_def attempt_recorded_def)
next
  case (Inr res)
  obtain popti pcovi where res: "res = (popti, pcovi)" by (cases res)
  show ?thesis using Inr res assms
    by (cases pcovi) (auto simp: fit_attempt_def attempt_recorded_def)
qed

lemma fit_row_Inl:
  assumes "fit_row curve_fit f j dirs p0 = Inl e"
  shows "e \<noteq> AttributeError
     \<and> (\<exists>i < length dirs. curve_fit f (fst (snd (dirs ! i))) (snd (snd (dirs ! i))) p0 = Inl e)"
  using assms
proof (induction dirs)
  case Nil
  then show ?case by simp
next
  case (Cons dir dirs)
  obtain d hi gi where dir: "dir = (d, hi, gi)" by (cases dir)
  show ?case
  proof (cases "fit_attempt curve_fit f j d hi gi p0")
    case (Inl e')
    then have "e' = e" using Cons.prems dir by simp
    with Inl have "fit_attempt curve_fit f j d hi gi p0 = Inl e" by simp
    then have "curve_fit f hi gi p0 = Inl e \<and> e \<noteq> AttributeError"
      unfolding fit_attempt_Inl_iff .
    then have "e \<noteq> AttributeError"
      and "curve_fit f (fst (snd ((dir # dirs) ! 0))) (snd (snd ((dir # dirs) ! 0))) p0 = Inl e"
      using dir by simp_all
    then show ?thesis by blast
  next
    case (Inr res)
    then have "fit_row curve_fit f j dirs p0 = Inl e"
      using Cons.prems dir by (auto split: sum.splits prod.splits)
    from Cons.IH [OF this] obtain i where "e \<noteq> AttributeError" "i < length dirs"
      "curve_fit f (fst (snd (dirs ! i))) (snd (snd (dirs ! i))) p0 = Inl e" by blast
    then have "e \<noteq> AttributeError" "Suc i < length (dir # dirs)"
      and "curve_fit f (fst (snd ((dir # dirs) ! Suc i))) (snd (snd ((dir # dirs) ! Suc i))) p0 = Inl e"
      by simp_all
    then show ?thesis by blast
  qed
qed

lemma fit_row_Inr:
  assumes "fit_row curve_fit f j dirs p0 = Inr (row, w)"
  shows "length row = length dirs
     \<and> (\<forall>i < length dirs.
           (\<forall>e. curve_fit f (fst (snd (dirs ! i))) (snd (snd (dirs ! i))) p0 = Inl e \<longrightarrow> e = AttributeError)
           \<and> (\<forall>ws. set w \<subseteq> set ws \<longrightarrow> attempt_recorded curve_fit f j (dirs ! i) p0 (row ! i) ws))"
  using assms
proof (induction dirs arbitrary: row w)
  case Nil
  then show ?case by simp
next
  case (Cons dir dirs)
  obtain d hi gi where dir: "dir = (d, hi, gi)" by (cases dir)
  from Cons.prems obtain cl w1 row' w2 where
    a: "fit_attempt curve_fit f j d hi gi p0 = Inr (cl, w1)"
    and r: "fit_row curve_fit f j dirs p0 = Inr (row', w2)"
    and row: "row = cl # row'" and w: "w = w1 @ w2"
    unfolding dir by (auto split: sum.splits prod.splits)
  note ih = Cons.IH [OF r]
  have good: "e = AttributeError" if "curve_fit f hi gi p0 = Inl e" for e
  proof (rule ccontr)
    assume "e \<noteq> AttributeError"
    with that have "fit_attempt curve_fit f j d hi gi p0 = Inl e"
      unfolding fit_attempt_Inl_iff by (intro conjI)
    with a show False by simp
  qed
  have "(\<forall>e. curve_fit f (fst (snd ((dir # dirs) ! i))) (snd (snd ((dir # dirs) ! i))) p0 = Inl e
            \<longrightarrow> e = AttributeError)
        \<and> (\<forall>ws. set w \<subseteq> set ws \<longrightarrow> attempt_recorded curve_fit f j ((dir # dirs) ! i) p0 (row ! i) ws)"
    if "i < length (dir # dirs)" for i
  proof (cases i)
    case 0
    have "attempt_recorded curve_fit f j (d, hi, gi) p0 cl ws" if "set w \<subseteq> set ws" for ws
      using fit_attempt_Inr_recorded [OF a] that w by simp
    then show ?thesis using 0 good dir row by simp
  next
    case (Suc i')
    then have i': "i' < length dirs" using that by simp
    from ih i' have "(\<forall>e. curve_fit f (fst (snd (dirs ! i'))) (snd (snd (dirs ! i'))) p0 = Inl e
            \<longrightarrow> e = AttributeError)
        \<and> (\<forall>ws. set w2 \<subseteq> set ws \<longrightarrow> attempt_recorded curve_fit f j (dirs ! i') p0 (row' ! i') ws)"
      by blast
    then show ?thesis using Suc row w by simp
  qed
  then show ?case using ih row by simp
qed

lemma fit_all_Inl:
  assumes "fit_all curve_fit funcs j0 dirs p0 = Inl e"
  shows "e \<noteq> AttributeError
     \<and> (\<exists>j < length funcs. \<exists>i < length dirs.
           curve_fit (funcs ! j) (fst (snd (dirs ! i))) (snd (snd (dirs ! i))) p0 = Inl e)"
  using assms
proof (induction funcs arbitrary: j0)
  case Nil
  then show ?case by simp
next
  case (Cons f funcs)
  show ?case
  proof (cases "fit_row curve_fit f j0 dirs p0")
    case (Inl e')
    then have "e' = e" using Cons.prems by simp
    with Inl have "fit_row curve_fit f j0 dirs p0 = Inl e" by simp
    from fit_row_Inl [OF this] obtain i where
      "e \<noteq> AttributeError" "i < length dirs"
      "curve_fit f (fst (snd (dirs ! i))) (snd (snd (dirs ! i))) p0 = Inl e" by blast
    then have "e \<noteq> AttributeError" "0 < length (f # funcs)" "i < length dirs"
      "curve_fit ((f # funcs) ! 0) (fst (snd (dirs ! i))) (snd (snd (dirs ! i))) p0 = Inl e"
      by simp_all
    then show ?thesis by blast
  next
    case (Inr res)
    then have "fit_all curve_fit funcs (j0 + 1) dirs p0 = Inl e"
      using Cons.prems by (auto split: sum.splits prod.splits)
    from Cons.IH [OF this] obtain j i where "e \<noteq> AttributeError" "j < length funcs" "i < length dirs"
      "curve_fit (funcs ! j) (fst (snd (dirs ! i))) (snd (snd (dirs ! i))) p0 = Inl e" by blast
    then have "e \<noteq> AttributeError" "Suc j < length (f # funcs)" "i < length dirs"
      "curve_fit ((f # funcs) ! Suc j) (fst (snd (dirs ! i))) (snd (snd (dirs ! i))) p0 = Inl e"
      by simp_all
    then show ?thesis by blast
  qed
qed

lemma fit_all_Inr:
  assumes "fit_all curve_fit funcs j0 dirs p0 = Inr (cells, w)"
  shows "length cells = length funcs
     \<and> (\<forall>j < length funcs. length (cells ! j) = length dirs
          \<and> (\<forall>i < length dirs.
                (\<forall>e. curve_fit (funcs ! j) (fst (snd (dirs ! i))) (snd (snd (dirs ! i))) p0 = Inl e
                        \<longrightarrow> e = AttributeError)
                \<and> (\<forall>ws. set w \<subseteq> set ws \<longrightarrow>
                      attempt_recorded curve_fit (funcs ! j) (j0 + j) (dirs ! i) p0 (cells ! j ! i) ws)))"
  using assms
proof (induction funcs arbitrary: j0 cells w)
  case Nil
  then show ?case by simp
next
  case (Cons f funcs)
  from Cons.prems obtain row w1 cells' w2 where
    a: "fit_row curve_fit f j0 dirs p0 = Inr (row, w1)"
    and r: "fit_all curve_fit funcs (j0 + 1) dirs p0 = Inr (cells', w2)"
    and cells: "cells = row # cells'" and w: "w = w1 @ w2"
    by (auto split: sum.splits prod.splits)
  note ih = Cons.IH [OF r]
  note row = fit_row_Inr [OF a]
  have "length (cells ! j) = length dirs
          \<and> (\<forall>i < length dirs.
                (\<forall>e. curve_fit ((f # funcs) ! j) (fst (snd (dirs ! i))) (snd (snd (dirs ! i))) p0 = Inl e
                        \<longrightarrow> e = AttributeError)
                \<and> (\<forall>ws. set w \<subseteq> set ws \<longrightarrow>
                      attempt_recorded curve_fit ((f # funcs) ! j) (j0 + j) (dirs ! i) p0 (cells ! j ! i) ws))"
    if "j < length (f # funcs)" for j
  proof (cases j)
    case 0
    then show ?thesis using row cells w by simp
  next
    case (Suc j')
    then have j': "j' < length funcs" using that by simp
    from ih j' have "length (cells' ! j') = length dirs
          \<and> (\<forall>i < length dirs.
                (\<forall>e. curve_fit (funcs ! j') (fst (snd (dirs ! i))) (snd (snd (dirs ! i))) p0 = Inl e
                        \<longrightarrow> e = AttributeError)
                \<and> (\<forall>ws. set w2 \<subseteq> set ws \<longrightarrow>
                      attempt_recorded curve_fit (funcs ! j') (j0 + 1 + j') (dirs ! i) p0 (cells' ! j' ! i) ws))"
      by blast
    then show ?thesis using Suc cells w by simp
  qed
  then show ?case using ih cells by simp
qed

lemma fit_all_aborts:
  assumes "raises_other curve_fit funcs dirs p0"
  shows "\<exists>e. e \<noteq> AttributeError \<and> fit_all curve_fit funcs j0 dirs p0 = Inl e"
proof (cases "fit_all curve_fit funcs j0 dirs p0")
  case (Inl e)
  from fit_all_Inl [OF Inl] have "e \<noteq> AttributeError" by (rule conjunct1)
  with Inl show ?thesis by (intro exI [of _ e] conjI)
next
  case (Inr res)
  obtain cells w where res: "res = (cells, w)" by (cases res)
  from assms obtain j i e where j: "j < length funcs" and i: "i < length dirs"
    and e: "curve_fit (funcs ! j) (fst (snd (dirs ! i))) (snd (snd (dirs ! i))) p0 = Inl e"
    and ne: "e \<noteq> AttributeError"
    unfolding raises_other_def by (elim exE conjE)
  from Inr res have "fit_all curve_fit funcs j0 dirs p0 = Inr (cells, w)" by simp
  from fit_all_Inr [OF this, THEN conjunct2, rule_format, OF j, THEN conjunct2, rule_format, OF i,
      THEN conjunct1, rule_format, OF e]
  have "e = AttributeError" .
  with ne show ?thesis by (rule notE)
qed

lemma fit_all_ends:
  assumes "\<not> raises_other curve_fit funcs dirs p0"
  shows "\<exists>cells ws. fit_all curve_fit funcs j0 dirs p0 = Inr (cells, ws)"
proof (cases "fit_all curve_fit funcs j0 dirs p0")
  case (Inl e)
  from fit_all_Inl [OF Inl] obtain j i where "e \<noteq> AttributeError" "j < length funcs" "i < length dirs"
    "curve_fit (funcs ! j) (fst (snd (dirs ! i))) (snd (snd (dirs ! i))) p0 = Inl e"
    by (elim exE conjE)
  then have "raises_other curve_fit funcs dirs p0"
    unfolding raises_other_def by (intro exI [of _ j] exI [of _ i] exI [of _ e] conjI)
  with assms show ?thesis by (rule notE)
next
  case (Inr res)
  obtain cells w where res: "res = (cells, w)" by (cases res)
  with Inr show ?thesis by simp
qed

text \<open>
  C4, as the claim states it, fails: when \<open>curve_fit\<close> raises RuntimeError, which
  is what it does when the optimizer does not converge, the exception is not caught
  and the run ends with it at the first attempt.
\<close>

theorem fit_failure_counterexample:
  "fit_all fit_not_converged [expvar, sphvar, gauvar] 0 [(0, [3 / 2], [5 / 4])] [1 / 2, 1 / 2, 100]
     = Inl RuntimeError
   \<and> semivariogram True fit_not_converged [0, 1, 3] [0, 0, 0] [1, 2, 4] 1 [0] 180
        Omnidirectional NoIdea [1 / 2, 1 / 2, 100] = Inl RuntimeError"
  using example_experimental
  by (simp add: semivariogram_def model_funcs_def directions_def
      fit_attempt_def fit_not_converged_def)

text \<open>
  C4, amended. When no attempt of the loops raises an exception other than
  AttributeError, the loops end normally and hold a cell for every (model, direction)
  attempt: the fitted values where the fit returned a covariance matrix, and otherwise
  (the call raised AttributeError, or the covariance is the float \<open>inf\<close>, whose
  \<open>diagonal\<close> raises it) the score \<open>inf\<close> with the warning of the attempt printed.
  When some attempt raises another exception, the loops end with an exception other
  than AttributeError. A run whose experimental part succeeds returns the fitted
  result in the first case and ends with that exception in the second.
\<close>

theorem fit_failures_recovered:
  "(\<not> raises_other curve_fit funcs dirs p0 \<longrightarrow>
      (\<exists>cells ws. fit_all curve_fit funcs 0 dirs p0 = Inr (cells, ws)
          \<and> length cells = length funcs
          \<and> (\<forall>j < length funcs. length (cells ! j) = length dirs
               \<and> (\<forall>i < length dirs.
                     attempt_recorded curve_fit (funcs ! j) j (dirs ! i) p0 (cells ! j ! i) ws))))
   \<and> (raises_other curve_fit funcs dirs p0 \<longrightarrow>
        (\<exists>e. e \<noteq> AttributeError \<and> fit_all curve_fit funcs 0 dirs p0 = Inl e))
   \<and> (experimental x y v nL di td ty = Inr ser \<and> model \<noteq> NoModel \<and> model \<noteq> OtherModel \<longrightarrow>
        (if raises_other curve_fit (model_funcs model)
              (zip (directions ty di) (map (\<lambda>(hi, gi, ci). (hi, gi)) ser)) p0
         then \<exists>e. e \<noteq> AttributeError
                 \<and> semivariogram True curve_fit x y v nL di td ty model p0 = Inl e
         else \<exists>res. semivariogram True curve_fit x y v nL di td ty model p0 = Inr (WithFit res ser)))"
proof -
  have 1: "\<exists>cells ws. fit_all curve_fit funcs 0 dirs p0 = Inr (cells, ws)
          \<and> length cells = length funcs
          \<and> (\<forall>j < length funcs. length (cells ! j) = length dirs
               \<and> (\<forall>i < length dirs.
                     attempt_recorded curve_fit (funcs ! j) j (dirs ! i) p0 (cells ! j ! i) ws))"
    if h: "\<not> raises_other curve_fit funcs dirs p0"
  proof -
    from fit_all_ends [OF h, of 0] obtain cells ws where a: "fit_all curve_fit funcs 0 dirs p0 = Inr (cells, ws)"
      by (elim exE)
    note b = fit_all_Inr [OF a]
    have c: "length (cells ! j) = length dirs
               \<and> (\<forall>i < length dirs.
                     attempt_recorded curve_fit (funcs ! j) j (dirs ! i) p0 (cells ! j ! i) ws)"
      if j: "j < length funcs" for j
    proof (intro conjI allI impI)
      show "length (cells ! j) = length dirs"
        by (rule b [THEN conjunct2, rule_format, OF j, THEN conjunct1])
    next
      fix i assume i: "i < length dirs"
      from b [THEN conjunct2, rule_format, OF j, THEN conjunct2, rule_format, OF i,
          THEN conjunct2, rule_format, of ws]
      show "attempt_recorded curve_fit (funcs ! j) j (dirs ! i) p0 (cells ! j ! i) ws" by simp
    qed
    have "fit_all curve_fit funcs 0 dirs p0 = Inr (cells, ws)
          \<and> length cells = length funcs
          \<and> (\<forall>j < length funcs. length (cells ! j) = length dirs
               \<and> (\<forall>i < length dirs.
                     attempt_recorded curve_fit (funcs ! j) j (dirs ! i) p0 (cells ! j ! i) ws))"
      using a b [THEN conjunct1] c by simp
    then show ?thesis by (intro exI)
  qed
  have 2: "\<exists>e. e \<noteq> AttributeError \<and> fit_all curve_fit funcs 0 dirs p0 = Inl e"
    if "raises_other curve_fit funcs dirs p0"
    by (rule fit_all_aborts [OF that, of 0])
  let ?dirs = "zip (directions ty di) (map (\<lambda>(hi, gi, ci). (hi, gi)) ser)"
  have 3: "if raises_other curve_fit (model_funcs model) ?dirs p0
         then \<exists>e. e \<noteq> AttributeError
                 \<and> semivariogram True curve_fit x y v nL di td ty model p0 = Inl e
         else \<exists>res. semivariogram True curve_fit x y v nL di td ty model p0 = Inr (WithFit res ser)"
    if e: "experimental x y v nL di td ty = Inr ser" and m: "model \<noteq> NoModel" "model \<noteq> OtherModel"
  proof (cases "raises_other curve_fit (model_funcs model) ?dirs p0")
    case True
    from fit_all_aborts [OF True, of 0] obtain e' where "e' \<noteq> AttributeError"
      "fit_all curve_fit (model_funcs model) 0 ?dirs p0 = Inl e'" by (elim exE conjE)
    then have "e' \<noteq> AttributeError \<and> semivariogram True curve_fit x y v nL di td ty model p0 = Inl e'"
      using e m by (simp add: semivariogram_def)
    then have "\<exists>e. e \<noteq> AttributeError \<and> semivariogram True curve_fit x y v nL di td ty model p0 = Inl e"
      by (rule exI)
    with True show ?thesis by simp
  next
    case False
    from fit_all_ends [OF False, of 0] obtain cells ws where
      "fit_all curve_fit (model_funcs model) 0 ?dirs p0 = Inr (cells, ws)" by (elim exE)
    then have "\<exists>res. semivariogram True curve_fit x y v nL di td ty model p0 = Inr (WithFit res ser)"
      using e m by (simp add: semivariogram_def)
    with False show ?thesis by simp
  qed
  show ?thesis
  proof (intro conjI impI)
    assume "\<not> raises_other curve_fit funcs dirs p0"
    then show "\<exists>cells ws. fit_all curve_fit funcs 0 dirs p0 = Inr (cells, ws)
          \<and> length cells = length funcs
          \<and> (\<forall>j < length funcs. length (cells ! j) = length dirs
               \<and> (\<forall>i < length dirs.
                     attempt_recorded curve_fit (funcs ! j) j (dirs ! i) p0 (cells ! j ! i) ws))"
      by (rule 1)
  next
    assume "raises_other curve_fit funcs dirs p0"
    then show "\<exists>e. e \<noteq> AttributeError \<and> fit_all curve_fit funcs 0 dirs p0 = Inl e"
      by (rule 2)
  next
    assume a: "experimental x y v nL di td ty = Inr ser \<and> model \<noteq> NoModel \<and> model \<noteq> OtherModel"
    show "if raises_other curve_fit (model_funcs model) ?dirs p0
         then \<exists>e. e \<noteq> AttributeError
                 \<and> semivariogram True curve_fit x y v nL di td ty model p0 = Inl e
         else \<exists>res. semivariogram True curve_fit x y v nL di td ty model p0 = Inr (WithFit res ser)"
      by (rule 3) (use a in simp_all)
  qed
qed

lemma fit_late_failure_models:
  "fit_late_failure expvar hi gi p0 = Inr ([1, 2, 3], Matrix [[4, 0, 0], [0, 16, 0], [0, 0, 36]])"
  "fit_late_failure sphvar hi gi p0 = Inl AttributeError"
  "fit_late_failure gauvar hi gi p0 = Inl RuntimeError"
  by (simp_all add: fit_late_failure_def expvar_def sphvar_def gauvar_def)

theorem fit_failures_recovered_witness:
  "(\<exists>cells ws. fit_all fit_example [expvar, sphvar, gauvar] 0 [(0, [3 / 2], [5 / 4])] [1 / 2, 1 / 2, 100]
       = Inr (cells, ws)
     \<and> vark (cells ! 0 ! 0) = Infinity \<and> FitWarning 0 0 \<in> set ws
     \<and> vark (cells ! 1 ! 0) = Finite 2
     \<and> vark (cells ! 2 ! 0) = Infinity \<and> FitWarning 2 0 \<in> set ws)
   \<and> (\<exists>e. e \<noteq> AttributeError
         \<and> fit_all fit_late_failure [expvar, sphvar, gauvar] 0 [(0, [3 / 2], [5 / 4])] [1 / 2, 1 / 2, 100]
             = Inl e)"
proof -
  let ?funcs = "[expvar, sphvar, gauvar]"
  let ?dirs = "[(0 :: real, [3 / 2 :: real], [5 / 4 :: real])]"
  let ?p0 = "[1 / 2, 1 / 2, 100 :: real]"
  have good: "\<not> raises_other fit_example ?funcs ?dirs ?p0"
    unfolding raises_other_def using fit_example_raises by blast
  have bad: "raises_other fit_late_failure ?funcs ?dirs ?p0"
    unfolding raises_other_def
    by (intro exI [of _ 2] exI [of _ 0] exI [of _ RuntimeError])
       (simp add: fit_late_failure_models)
  from fit_failures_recovered [of fit_example ?funcs ?dirs ?p0, THEN conjunct1, rule_format, OF good]
  obtain cells ws where a: "fit_all fit_example ?funcs 0 ?dirs ?p0 = Inr (cells, ws)"
    and b: "\<forall>j < length ?funcs. length (cells ! j) = length ?dirs
         \<and> (\<forall>i < length ?dirs.
               attempt_recorded fit_example (?funcs ! j) j (?dirs ! i) ?p0 (cells ! j ! i) ws)"
    by (elim exE conjE)
  from b have "attempt_recorded fit_example expvar 0 (0, [3 / 2], [5 / 4]) ?p0 (cells ! 0 ! 0) ws"
    "attempt_recorded fit_example sphvar 1 (0, [3 / 2], [5 / 4]) ?p0 (cells ! 1 ! 0) ws"
    "attempt_recorded fit_example gauvar 2 (0, [3 / 2], [5 / 4]) ?p0 (cells ! 2 ! 0) ws"
    by (simp_all add: All_less_Suc numeral_2_eq_2)
  then have "vark (cells ! 0 ! 0) = Infinity \<and> FitWarning 0 0 \<in> set ws
     \<and> vark (cells ! 1 ! 0) = Finite 2
     \<and> vark (cells ! 2 ! 0) = Infinity \<and> FitWarning 2 0 \<in> set ws"
    by (simp add: attempt_recorded_def fit_example_models diagonal_def np_mean_def sqrt_4 sqrt_16 sqrt_36)
  with a have 1: "\<exists>cells ws. fit_all fit_example ?funcs 0 ?dirs ?p0 = Inr (cells, ws)
     \<and> vark (cells ! 0 ! 0) = Infinity \<and> FitWarning 0 0 \<in> set ws
     \<and> vark (cells ! 1 ! 0) = Finite 2
     \<and> vark (cells ! 2 ! 0) = Infinity \<and> FitWarning 2 0 \<in> set ws"
    by (intro exI [of _ cells] exI [of _ ws] conjI) simp_all
  from fit_failures_recovered [of fit_late_failure ?funcs ?dirs ?p0, THEN conjunct2, THEN conjunct1,
      rule_format, OF bad]
  have 2: "\<exists>e. e \<noteq> AttributeError \<and> fit_all fit_late_failure ?funcs 0 ?dirs ?p0 = Inl e" .
  from 1 2 show ?thesis by (rule conjI)
qed

subsection \<open>Means and scores\<close>





subsection \<open>The choice of the model\<close>









subsection \<open>Rounding to binary64\<close>

lemma round_even_near: "\<bar>of_int (round_even y) - y\<bar> \<le> 1 / 2"
proof -
  have "of_int \<lfloor>y\<rfloor> \<le> y" "y < of_int \<lfloor>y\<rfloor> + 1" by linarith+
  then show ?thesis unfolding round_even_def Let_def by (auto simp: abs_le_iff)
qed

lemma round_even_int: "round_even (of_int m) = m"
  by (simp add: round_even_def)

lemma round_even_mono:
  assumes "y \<le> y'"
  shows "round_even y \<le> round_even y'"
proof (rule ccontr)
  assume "\<not> round_even y \<le> round_even y'"
  then have "round_even y' + 1 \<le> round_even y" by simp
  then have le: "of_int (round_even y') + (1 :: real) \<le> of_int (round_even y)"
    by (metis of_int_1 of_int_add of_int_le_iff)
  have "of_int (round_even y) - 1 / 2 \<le> y" "y' \<le> of_int (round_even y') + 1 / 2"
    using round_even_near [of y] round_even_near [of y'] by linarith+
  with le assms have "y = y'" by linarith
  with \<open>\<not> round_even y \<le> round_even y'\<close> show False by simp
qed

lemma fl_binade:
  assumes "2 powr of_int e \<le> x" and "x < 2 powr (of_int e + 1)"
  shows "fl x = of_int (round_even (x / 2 powr (of_int e - 52))) * 2 powr (of_int e - 52)"
proof -
  have pos: "0 < x" using assms(1) powr_gt_zero [of 2 "of_int e"] by linarith
  have "of_int e \<le> log 2 x" using assms(1) pos by (simp add: le_log_iff)
  moreover have "log 2 x < of_int e + 1" using assms(2) pos by (simp add: log_less_iff)
  ultimately have "\<lfloor>log 2 x\<rfloor> = e" by (simp add: floor_eq_iff)
  then show ?thesis using pos by (simp add: fl_def Let_def)
qed


lemma fl_29_7: "fl (29 / 7) = 4664442471205157 / 2 ^ 50"
proof -
  have "fl (29 / 7) = of_int (round_even ((29 / 7) / 2 powr (of_int 2 - 52))) * 2 powr (of_int 2 - 52)"
    by (rule fl_binade) simp_all
  also have "2 powr (of_int 2 - 52) = (1 :: real) / 2 ^ 50" by (simp add: powr_neg_numeral)
  also have "round_even ((29 / 7) / (1 / 2 ^ 50)) = 4664442471205157"
    by (simp add: round_even_def Let_def)
  finally show ?thesis by simp
qed

lemma fl_upper_29: "fl (7 * (4664442471205157 / 2 ^ 50)) = 8162774324609025 / 2 ^ 48"
proof -
  have "fl (7 * (4664442471205157 / 2 ^ 50))
      = of_int (round_even ((7 * (4664442471205157 / 2 ^ 50)) / 2 powr (of_int 4 - 52))) * 2 powr (of_int 4 - 52)"
    by (rule fl_binade) simp_all
  also have "2 powr (of_int 4 - 52) = (1 :: real) / 2 ^ 48" by (simp add: powr_neg_numeral)
  also have "round_even ((7 * (4664442471205157 / 2 ^ 50)) / (1 / 2 ^ 48)) = 8162774324609025"
    by (simp add: round_even_def Let_def)
  finally show ?thesis by simp
qed

lemma fl_lower_29: "fl (6 * (4664442471205157 / 2 ^ 50)) = 6996663706807736 / 2 ^ 48"
proof -
  have "fl (6 * (4664442471205157 / 2 ^ 50))
      = of_int (round_even ((6 * (4664442471205157 / 2 ^ 50)) / 2 powr (of_int 4 - 52))) * 2 powr (of_int 4 - 52)"
    by (rule fl_binade) simp_all
  also have "2 powr (of_int 4 - 52) = (1 :: real) / 2 ^ 48" by (simp add: powr_neg_numeral)
  also have "round_even ((6 * (4664442471205157 / 2 ^ 50)) / (1 / 2 ^ 48)) = 6996663706807736"
    by (simp add: round_even_def Let_def)
  finally show ?thesis by simp
qed


lemma fl_zero: "fl 0 = 0"
  by (simp add: fl_def)

lemma fl_bounds:
  assumes "0 < x"
  shows "2 powr of_int \<lfloor>log 2 x\<rfloor> \<le> fl x \<and> fl x \<le> 2 powr (of_int \<lfloor>log 2 x\<rfloor> + 1)"
proof -
  define e where "e = \<lfloor>log 2 x\<rfloor>"
  define u :: real where "u = 2 powr (of_int e - 52)"
  have u: "0 < u" by (simp add: u_def)
  have fl: "fl x = of_int (round_even (x / u)) * u"
    using assms by (simp add: fl_def Let_def e_def u_def)
  have "of_int e \<le> log 2 x" "log 2 x < of_int e + 1" unfolding e_def by linarith+
  then have lo: "2 powr of_int e \<le> x" and hi: "x < 2 powr (of_int e + 1)"
    using assms by (simp_all add: le_log_iff log_less_iff)
  have p52: "(2 :: real) powr of_int e = 2 ^ 52 * u"
  proof -
    have "(of_int e :: real) = 52 + (of_int e - 52)" by simp
    then have "(2 :: real) powr of_int e = 2 powr (52 + (of_int e - 52))" by (rule arg_cong)
    also have "\<dots> = 2 powr 52 * 2 powr (of_int e - 52)" by (rule powr_add)
    also have "(2 :: real) powr 52 = 2 ^ 52" by simp
    finally show ?thesis unfolding u_def .
  qed
  have p53: "(2 :: real) powr (of_int e + 1) = 2 ^ 53 * u"
  proof -
    have "(of_int e :: real) + 1 = 53 + (of_int e - 52)" by simp
    then have "(2 :: real) powr (of_int e + 1) = 2 powr (53 + (of_int e - 52))" by (rule arg_cong)
    also have "\<dots> = 2 powr 53 * 2 powr (of_int e - 52)" by (rule powr_add)
    also have "(2 :: real) powr 53 = 2 ^ 53" by simp
    finally show ?thesis unfolding u_def .
  qed
  have "(2 :: real) ^ 52 \<le> x / u" using lo u unfolding p52 by (simp add: pos_le_divide_eq)
  then have "round_even (of_int (2 ^ 52)) \<le> round_even (x / u)"
    by (intro round_even_mono) simp
  then have a: "(2 :: int) ^ 52 \<le> round_even (x / u)" unfolding round_even_int .
  have "x / u \<le> (2 :: real) ^ 53" using hi u unfolding p53 by (simp add: pos_divide_le_eq)
  then have "round_even (x / u) \<le> round_even (of_int (2 ^ 53))"
    by (intro round_even_mono) simp
  then have b: "round_even (x / u) \<le> (2 :: int) ^ 53" unfolding round_even_int .
  have "(2 :: real) ^ 52 \<le> of_int (round_even (x / u))"
    using a by (metis of_int_le_iff of_int_numeral of_int_power)
  then have 1: "2 ^ 52 * u \<le> of_int (round_even (x / u)) * u"
    using u by (intro mult_right_mono) simp_all
  have "of_int (round_even (x / u)) \<le> (2 :: real) ^ 53"
    using b by (metis of_int_le_iff of_int_numeral of_int_power)
  then have 2: "of_int (round_even (x / u)) * u \<le> 2 ^ 53 * u"
    using u by (intro mult_right_mono) simp_all
  from 1 2 show ?thesis unfolding fl e_def [symmetric] p52 p53 by simp
qed

lemma fl_mono:
  assumes "0 \<le> a" and "a \<le> b"
  shows "fl a \<le> fl b"
proof (cases "a = 0")
  case True
  show ?thesis
  proof (cases "b = 0")
    case True
    with \<open>a = 0\<close> show ?thesis by simp
  next
    case False
    then have "0 < b" using assms True by simp
    from fl_bounds [OF this] have "0 < fl b"
      using powr_gt_zero [of 2 "of_int \<lfloor>log 2 b\<rfloor>"] by linarith
    then show ?thesis using True by (simp add: fl_zero)
  qed
next
  case False
  then have a: "0 < a" and b: "0 < b" using assms by simp_all
  have le: "\<lfloor>log 2 a\<rfloor> \<le> \<lfloor>log 2 b\<rfloor>"
    using a b assms(2) by (intro floor_mono) simp
  show ?thesis
  proof (cases "\<lfloor>log 2 a\<rfloor> = \<lfloor>log 2 b\<rfloor>")
    case True
    define u :: real where "u = 2 powr (of_int \<lfloor>log 2 b\<rfloor> - 52)"
    have u: "0 < u" by (simp add: u_def)
    have fa: "fl a = of_int (round_even (a / u)) * u"
      using a True by (simp add: fl_def Let_def u_def)
    have fb: "fl b = of_int (round_even (b / u)) * u"
      using b by (simp add: fl_def Let_def u_def)
    have "a / u \<le> b / u" using assms(2) u by (simp add: divide_right_mono)
    then have "round_even (a / u) \<le> round_even (b / u)" by (rule round_even_mono)
    then have "(of_int (round_even (a / u)) :: real) \<le> of_int (round_even (b / u))" by simp
    then show ?thesis unfolding fa fb using u by (intro mult_right_mono) simp_all
  next
    case False
    with le have "\<lfloor>log 2 a\<rfloor> + 1 \<le> \<lfloor>log 2 b\<rfloor>" by simp
    then have "(of_int \<lfloor>log 2 a\<rfloor> :: real) + 1 \<le> of_int \<lfloor>log 2 b\<rfloor>"
      by (metis of_int_1 of_int_add of_int_le_iff)
    then have "(2 :: real) powr (of_int \<lfloor>log 2 a\<rfloor> + 1) \<le> 2 powr of_int \<lfloor>log 2 b\<rfloor>"
      by (intro powr_mono) simp_all
    with fl_bounds [OF a] fl_bounds [OF b] show ?thesis by linarith
  qed
qed

end
